theory Spec2Isabelle
  imports Complex_Main "HOL-Library.Word" "HOL-Library.AList" "HOL-Library.Multiset"
begin

unbundle bit_operations_syntax

section \<open>Data model\<close>

text \<open>
  Machine integers of the Go source. \<open>uint32\<close> and \<open>int32\<close> share the 32-bit
  carrier: a Go conversion between them keeps the bits, and so does \<open>ucast\<close> at equal
  width. A \<open>float64\<close> is only ever copied by the code modelled here, so it is its
  64-bit IEEE pattern.
\<close>

type_synonym uint8 = "8 word"
type_synonym uint32 = "32 word"
type_synonym int32 = "32 word"
type_synonym float64 = "64 word"

text \<open>
  A Go slice or map value is either \<open>nil\<close> (\<open>None\<close>) or allocated (\<open>Some\<close>);
  \<open>range\<close> over \<open>nil\<close> runs zero times.
\<close>

type_synonym 'a slice = "'a list option"

definition elems :: "'a slice \<Rightarrow> 'a list" where
  "elems s = (case s of None \<Rightarrow> [] | Some xs \<Rightarrow> xs)"

text \<open>
  \<open>zoekt.RepositoryBranch\<close>, with the two fields that the conversions read and
  write.
\<close>

record RepositoryBranch =
  rb_Name :: string
  rb_Version :: string

text \<open>
  Modelled from the spec: the declaration of \<open>IndexOptions\<close> is not among the source
  files. Its fields are the ones of the spec's data model (repository ID, name, clone
  locator, branches, symbol flag, large-file patterns, language map, priority,
  document-ranks version, visibility, fork and archived flags), under the names and
  with the types that \<open>FromProto\<close>, \<open>ToProto\<close> and the transports use them
  (lines 464-480, 505-523, 547, 606). \<open>LanguageMap\<close> is a Go map from language
  name to the parser kind, an \<open>uint8\<close>.
\<close>

record IndexOptions =
  RepoID :: uint32
  Name :: string
  CloneURL :: string
  LargeFiles :: "string slice"
  Symbols :: bool
  Branches :: "RepositoryBranch slice"
  Priority :: float64
  DocumentRanksVersion :: string
  Public :: bool
  Fork :: bool
  Archived :: bool
  LanguageMap :: "(string \<rightharpoonup> uint8) option"

text \<open>\<open>indexOptionsItem\<close> (source lines 441-446): the options and the API's error.\<close>

record indexOptionsItem =
  IndexOptions :: IndexOptions
  Error :: string

subsection \<open>Wire messages\<close>

text \<open>
  Modelled from the spec: the generated protobuf types are not among the source files.
  The spec has the wire carry the fields of \<open>IndexOptions\<close> or an error string; the
  fields here are the ones that \<open>FromProto\<close> and \<open>ToProto\<close> read and write
  (lines 448-524), the repository ID and the parser kind as \<open>int32\<close>. Elements of
  a repeated message field are pointers, so an element may be \<open>nil\<close>; the
  generated getters read a \<open>nil\<close> message as the zero message.
\<close>

record ZoektRepositoryBranch =
  pbb_Name :: string
  pbb_Version :: string

record LanguageMapping =
  pb_Language :: string
  pb_Ctags :: int32

record ZoektIndexOptions =
  pb_RepoId :: int32
  pb_LargeFiles :: "string slice"
  pb_Symbols :: bool
  pb_Branches :: "ZoektRepositoryBranch option slice"
  pb_Name :: string
  pb_Priority :: float64
  pb_DocumentRanksVersion :: string
  pb_Public :: bool
  pb_Fork :: bool
  pb_Archived :: bool
  pb_Error :: string
  pb_LanguageMap :: "LanguageMapping option slice"

definition GetName :: "ZoektRepositoryBranch option \<Rightarrow> string" where
  "GetName b = (case b of None \<Rightarrow> [] | Some r \<Rightarrow> pbb_Name r)"

definition GetVersion :: "ZoektRepositoryBranch option \<Rightarrow> string" where
  "GetVersion b = (case b of None \<Rightarrow> [] | Some r \<Rightarrow> pbb_Version r)"

definition GetLanguage :: "LanguageMapping option \<Rightarrow> string" where
  "GetLanguage l = (case l of None \<Rightarrow> [] | Some r \<Rightarrow> pb_Language r)"

definition GetCtags :: "LanguageMapping option \<Rightarrow> int32" where
  "GetCtags l = (case l of None \<Rightarrow> 0 | Some r \<Rightarrow> pb_Ctags r)"

section \<open>Conversion to and from the wire (source lines 448-524)\<close>

text \<open>
  \<open>FromProto\<close>: the branches are appended to a fresh slice, the language map is filled
  entry by entry (a later entry for the same language overwrites an earlier one), and
  \<open>CloneURL\<close> is not assigned, so it is the empty string.
\<close>

definition putLanguage ::
  "(string \<rightharpoonup> uint8) \<Rightarrow> LanguageMapping option \<Rightarrow> (string \<rightharpoonup> uint8)" where
  \<comment> \<open>line 461: \<open>languageMap[lang.GetLanguage()] = uint8(lang.GetCtags().Number())\<close>\<close>
  "putLanguage m lang = m(GetLanguage lang \<mapsto> ucast (GetCtags lang))"

definition FromProto :: "ZoektIndexOptions \<Rightarrow> indexOptionsItem" where
  "FromProto x =
    (let branches = map (\<lambda>b. \<lparr>rb_Name = GetName b, rb_Version = GetVersion b\<rparr>)
                        (elems (pb_Branches x));
         languageMap = foldl putLanguage Map.empty (elems (pb_LanguageMap x))
     in \<lparr>IndexOptions =
           \<lparr>RepoID = ucast (pb_RepoId x),
            Name = pb_Name x,
            CloneURL = [],
            LargeFiles = pb_LargeFiles x,
            Symbols = pb_Symbols x,
            Branches = Some branches,
            Priority = pb_Priority x,
            DocumentRanksVersion = pb_DocumentRanksVersion x,
            Public = pb_Public x,
            Fork = pb_Fork x,
            Archived = pb_Archived x,
            LanguageMap = Some languageMap\<rparr>,
         Error = pb_Error x\<rparr>)"

text \<open>
  \<open>ToProto\<close> ranges over the Go map \<open>o.LanguageMap\<close>. The runtime picks the order of
  that iteration; it is the parameter \<open>order\<close>, and \<open>range_order\<close> says what the
  runtime guarantees of it: every key of the map exactly once.
\<close>

definition range_order :: "(string \<rightharpoonup> uint8) option \<Rightarrow> string list \<Rightarrow> bool" where
  "range_order lm order =
     (case lm of None \<Rightarrow> order = []
               | Some m \<Rightarrow> distinct order \<and> set order = dom m)"

definition ToProto :: "string list \<Rightarrow> indexOptionsItem \<Rightarrow> ZoektIndexOptions" where
  "ToProto order o' =
    (let opts = IndexOptions o';
         branches = map (\<lambda>b. Some \<lparr>pbb_Name = rb_Name b, pbb_Version = rb_Version b\<rparr>)
                        (elems (Branches opts));
         languageMap =
           (case LanguageMap opts of
              None \<Rightarrow> []
            | Some m \<Rightarrow>
                concat (map (\<lambda>lang. case m lang of
                                       None \<Rightarrow> []
                                     | Some parser \<Rightarrow>
                                         [Some \<lparr>pb_Language = lang,
                                                pb_Ctags = (ucast parser :: int32)\<rparr>])
                            order))
     in \<lparr>pb_RepoId = ucast (RepoID opts),
         pb_LargeFiles = LargeFiles opts,
         pb_Symbols = Symbols opts,
         pb_Branches = Some branches,
         pb_Name = Name opts,
         pb_Priority = Priority opts,
         pb_DocumentRanksVersion = DocumentRanksVersion opts,
         pb_Public = Public opts,
         pb_Fork = Fork opts,
         pb_Archived = Archived opts,
         pb_Error = Error o',
         pb_LanguageMap = Some languageMap\<rparr>)"

section \<open>The fake's repository ID (source lines 1074-1078)\<close>

text \<open>
  \<open>crc32.ChecksumIEEE\<close> of the Go standard library: the reflected CRC-32 with
  polynomial \<open>0xEDB88320\<close>, initial value and final complement \<open>0xFFFFFFFF\<close>, one
  bit at a time.
\<close>

definition crc_bit :: "uint32 \<Rightarrow> uint32" where
  "crc_bit c = (if c AND 1 = 1 then drop_bit 1 c XOR 0xEDB88320 else drop_bit 1 c)"

definition crc_byte :: "uint32 \<Rightarrow> uint8 \<Rightarrow> uint32" where
  "crc_byte c b = (crc_bit ^^ 8) (c XOR ucast b)"

definition bytes_of :: "string \<Rightarrow> uint8 list" where
  "bytes_of s = map (\<lambda>c. word_of_nat (of_char c)) s"

definition ChecksumIEEE :: "uint8 list \<Rightarrow> uint32" where
  "ChecksumIEEE bs = NOT (foldl crc_byte 0xFFFFFFFF bs)"

definition fakeID :: "string \<Rightarrow> uint32" where
  "fakeID name = ChecksumIEEE (bytes_of name) mod (2 ^ 31 - 1) + 1"

section \<open>The reset deadline (source lines 278-291)\<close>

text \<open>
  \<open>time.Duration\<close> is an \<open>int64\<close> count of nanoseconds: arithmetic wraps around,
  and \<open>/\<close> truncates towards zero.
\<close>

definition int64 :: "int \<Rightarrow> int" where
  "int64 x = (x + 2 ^ 63) mod 2 ^ 64 - 2 ^ 63"

definition quo :: "int \<Rightarrow> int \<Rightarrow> int" where
  "quo a b = sgn a * sgn b * (\<bar>a\<bar> div \<bar>b\<bar>)"

definition Minute :: int where
  "Minute = 60000000000"

text \<open>
  \<open>rand.Int63n n\<close> panics when \<open>n \<le> 0\<close> and otherwise returns a number of the
  half-open interval from 0 to \<open>n\<close>. The outcome of the draw is the parameter
  \<open>seed\<close>: every number of the interval is the result for some seed.
\<close>

definition Int63n :: "nat \<Rightarrow> int \<Rightarrow> int option" where
  "Int63n seed n = (if n \<le> 0 then None else Some (int seed mod n))"

text \<open>Lines 282-285: a minute for every 500 repositories, at least five minutes.\<close>

definition resetBase :: "nat \<Rightarrow> int" where
  "resetBase n =
     (let next = quo (int64 (int n * Minute)) 500;
          min = int64 (5 * Minute)
      in if next < min then min else next)"

text \<open>Line 286: the jitter is added. \<open>None\<close> is the panic of \<open>rand.Int63n\<close>.\<close>

definition resetDuration :: "nat \<Rightarrow> nat \<Rightarrow> int option" where
  "resetDuration n seed =
     (case Int63n seed (quo (resetBase n) 4) of
        None \<Rightarrow> None
      | Some jitter \<Rightarrow> Some (int64 (resetBase n + jitter)))"

section \<open>The client and its environment\<close>

text \<open>
  A Go \<open>error\<close> value: \<open>errors.New\<close> and the errors of the libraries are \<open>Err\<close> with
  their message; \<open>fmt.Errorf\<close> with \<open>%w\<close> and \<open>url.Error\<close> wrap an inner error.
\<close>

datatype go_error = Err string | Wrap string go_error

text \<open>
  Modelled from the spec: \<open>proto.Fingerprint\<close> is not among the source files. The
  spec has it an opaque structured token that is returned and passed on verbatim; a
  pointer to it may be \<open>nil\<close>.
\<close>

datatype Fingerprint = Fingerprint string

text \<open>
  What the client puts on the wire for one options request. The REST request carries
  the repository IDs as decimal numbers in the form field \<open>repoID\<close>.
\<close>

record rest_request =
  Method :: string
  URL :: string
  FormRepoID :: "nat list"
  ReqHeader :: "(string \<times> string) list"

record SearchConfigurationRequest =
  rq_RepoIds :: "int32 list"
  rq_Fingerprint :: "Fingerprint option"

text \<open>
  What comes back. \<open>BodyRead\<close> is the result of reading at most 1024 bytes of the body,
  \<open>BodyJSON\<close> the results of the successive \<open>Decode\<close> calls on the body before
  \<open>io.EOF\<close>.
\<close>

record http_response =
  StatusCode :: int
  Status :: string
  BodyRead :: "go_error + string"
  BodyJSON :: "(go_error + indexOptionsItem) list"
  Header :: "(string \<times> string) list"

record SearchConfigurationResponse =
  rs_UpdatedOptions :: "ZoektIndexOptions list"
  rs_Fingerprint :: "Fingerprint option"

text \<open>
  Everything outside the process: the HTTP client \<open>restClient.Do\<close>, the gRPC client,
  the exchange of \<open>listRepoIDs\<close> (lines 617-684, either transport), the URL
  functions of the standard library, and whether \<open>retryablehttp.NewRequest\<close> accepts
  a URL (\<open>Some\<close> is the error it returns). The outside world has a state \<open>'w\<close> of
  its own, which every exchange may change.
\<close>

record 'w backend =
  NewRequest :: "string \<Rightarrow> go_error option"
  restDo :: "rest_request \<Rightarrow> 'w \<Rightarrow> (go_error + http_response) \<times> 'w"
  SearchConfiguration ::
    "SearchConfigurationRequest \<Rightarrow> 'w \<Rightarrow> (go_error + SearchConfigurationResponse) \<times> 'w"
  listRepoIDsExchange :: "bool \<Rightarrow> string \<Rightarrow> uint32 list \<Rightarrow> 'w \<Rightarrow> (go_error + uint32 list) \<times> 'w"
  ResolveReference :: "string \<Rightarrow> string \<Rightarrow> string"
  pathJoin :: "string \<Rightarrow> string \<Rightarrow> string"

text \<open>\<open>sourcegraphClient\<close> (lines 146-191). Times are nanoseconds.\<close>

record sourcegraphClient =
  Root :: string
  Hostname :: string
  BatchSize :: int
  configFingerprint :: string
  configFingerprintProto :: "Fingerprint option"
  configFingerprintReset :: int
  useGRPC :: bool

text \<open>
  The effects of the client, in the order they happen: a request put on the wire, a
  call of the consumer given to \<open>IterateIndexOptions\<close>, a call of \<open>onSuccess\<close> or of
  \<open>onError\<close>. Metrics and trace spans are left out: they do not feed back into the
  control flow.
\<close>

datatype event =
    SentREST rest_request
  | SentGRPC SearchConfigurationRequest
  | Consumer IndexOptions
  | OnSuccess IndexOptions
  | OnError uint32 go_error

record 'w machine =
  client :: sourcegraphClient
  world :: 'w
  trace :: "event list"

definition emit :: "event \<Rightarrow> 'w machine \<Rightarrow> 'w machine" where
  "emit e m = m\<lparr>trace := trace m @ [e]\<rparr>"

section \<open>The batcher\<close>

text \<open>
  Modelled from the spec: the function \<open>batched\<close>, which \<open>List\<close> and
  \<open>ForceIterateIndexOptions\<close> call, is not among the source files. The spec has it
  split an ordered sequence of repository IDs into chunks of a fixed size, covering
  every ID once in the original order (25 000 IDs at size 10 000 give chunks of
  10 000, 10 000 and 5 000). The spec describes positive sizes only; here a size that
  is not positive yields no chunk.
\<close>

function batched :: "'a list \<Rightarrow> int \<Rightarrow> 'a list list" where
  "batched xs n =
     (if xs = [] \<or> n \<le> 0 then []
      else take (nat n) xs # batched (drop (nat n) xs) n)"
  by pat_completeness auto
termination
  by (relation "measure (\<lambda>(xs, n). length xs)") auto

declare batched.simps [simp del]

section \<open>Fetching index options (source lines 526-615)\<close>

definition fingerprintHeader :: string where
  "fingerprintHeader = ''X-Sourcegraph-Config-Fingerprint''"

definition HeaderGet :: "(string \<times> string) list \<Rightarrow> string \<Rightarrow> string" where
  "HeaderGet h k = (case map_of h k of None \<Rightarrow> [] | Some v \<Rightarrow> v)"

definition getCloneURL :: "'w backend \<Rightarrow> sourcegraphClient \<Rightarrow> string \<Rightarrow> string" where
  "getCloneURL env s name = ResolveReference env (Root s) (pathJoin env ''/.internal/git'' name)"

definition withCloneURL :: "'w backend \<Rightarrow> sourcegraphClient \<Rightarrow> indexOptionsItem \<Rightarrow> indexOptionsItem" where
  "withCloneURL env s item =
     item\<lparr>IndexOptions := (IndexOptions item)\<lparr>CloneURL := getCloneURL env s (Name (IndexOptions item))\<rparr>\<rparr>"

text \<open>\<open>doRequest\<close> (lines 797-806) marks the request as internal and sends it.\<close>

definition asInternal :: "rest_request \<Rightarrow> rest_request" where
  "asInternal req = req\<lparr>ReqHeader := AList.update ''X-Sourcegraph-Actor-UID'' ''internal'' (ReqHeader req)\<rparr>"

definition doRequest ::
  "'w backend \<Rightarrow> rest_request \<Rightarrow> 'w machine \<Rightarrow> (go_error + http_response) \<times> 'w machine" where
  "doRequest env req m =
     (case restDo env (asInternal req) (world m) of
        (r, w') \<Rightarrow> (r, (emit (SentREST (asInternal req)) m)\<lparr>world := w'\<rparr>))"

text \<open>The decoding loop of lines 595-608.\<close>

fun decodeItems ::
  "'w backend \<Rightarrow> sourcegraphClient \<Rightarrow> (go_error + indexOptionsItem) list \<Rightarrow> indexOptionsItem list
    \<Rightarrow> go_error + indexOptionsItem list" where
  "decodeItems env s [] opts = Inr opts"
| "decodeItems env s (Inl err # rest) opts = Inl (Wrap ''error decoding body'' err)"
| "decodeItems env s (Inr opt # rest) opts = decodeItems env s rest (opts @ [withCloneURL env s opt])"

text \<open>Lines 558-574: the request, with the fingerprint header only for a fingerprint that is not empty.\<close>

definition configurationURL :: "'w backend \<Rightarrow> sourcegraphClient \<Rightarrow> string" where
  "configurationURL env s = ResolveReference env (Root s) ''/.internal/search/configuration''"

definition restRequest :: "'w backend \<Rightarrow> sourcegraphClient \<Rightarrow> string \<Rightarrow> uint32 list \<Rightarrow> rest_request" where
  "restRequest env s fingerprint repos =
     (let repoIDs = map unat repos;
          req = \<lparr>Method = ''POST'', URL = configurationURL env s, FormRepoID = repoIDs,
                 ReqHeader = [(''Content-Type'', ''application/x-www-form-urlencoded'')]\<rparr>
      in if fingerprint \<noteq> []
         then req\<lparr>ReqHeader := AList.update fingerprintHeader fingerprint (ReqHeader req)\<rparr>
         else req)"

text \<open>Lines 582-610: the status check, the decoding, the fingerprint of the response.\<close>

definition readResponse ::
  "'w backend \<Rightarrow> sourcegraphClient \<Rightarrow> http_response \<Rightarrow> go_error + indexOptionsItem list \<times> string" where
  "readResponse env s resp =
     (if StatusCode resp \<noteq> 200
      then (case BodyRead resp of
              Inl err \<Rightarrow> Inl err
            | Inr b \<Rightarrow> Inl (Wrap (''Get '' @ configurationURL env s) (Err (Status resp @ '': '' @ b))))
      else (case decodeItems env s (BodyJSON resp) [] of
              Inl err \<Rightarrow> Inl err
            | Inr opts \<Rightarrow> Inr (opts, HeaderGet (Header resp) fingerprintHeader)))"

definition getIndexOptionsREST ::
  "'w backend \<Rightarrow> string \<Rightarrow> uint32 list \<Rightarrow> 'w machine
    \<Rightarrow> (go_error + indexOptionsItem list \<times> string) \<times> 'w machine" where
  "getIndexOptionsREST env fingerprint repos m =
     (case NewRequest env (configurationURL env (client m)) of
        Some err \<Rightarrow> (Inl err, m)
      | None \<Rightarrow>
          (case doRequest env (restRequest env (client m) fingerprint repos) m of
             (Inl err, m1) \<Rightarrow> (Inl err, m1)
           | (Inr resp, m1) \<Rightarrow> (readResponse env (client m) resp, m1)))"

text \<open>Lines 527-535 build the request, lines 537-552 send it and convert the answer.\<close>

definition grpcRequest :: "Fingerprint option \<Rightarrow> uint32 list \<Rightarrow> SearchConfigurationRequest" where
  "grpcRequest fingerprint repos =
     \<lparr>rq_RepoIds = map (\<lambda>repo. (ucast repo :: int32)) repos, rq_Fingerprint = fingerprint\<rparr>"

definition getIndexOptionsGRPC ::
  "'w backend \<Rightarrow> Fingerprint option \<Rightarrow> uint32 list \<Rightarrow> 'w machine
    \<Rightarrow> (go_error + indexOptionsItem list \<times> Fingerprint option) \<times> 'w machine" where
  "getIndexOptionsGRPC env fingerprint repos m =
     (case SearchConfiguration env (grpcRequest fingerprint repos) (world m) of
        (r, w') \<Rightarrow>
          (case r of
             Inl err \<Rightarrow> Inl err
           | Inr response \<Rightarrow>
               Inr (map (\<lambda>x. withCloneURL env (client m) (FromProto x)) (rs_UpdatedOptions response),
                    rs_Fingerprint response),
           (emit (SentGRPC (grpcRequest fingerprint repos)) m)\<lparr>world := w'\<rparr>))"

section \<open>List and its iteration callback (source lines 267-402)\<close>

text \<open>
  The closure that \<open>mkGetIndexOptionsFunc\<close> returns: the fingerprint it captured and
  its flag \<open>first\<close>. The REST variant (lines 303-326) holds a string, the gRPC variant
  (lines 330-352) a pointer to a fingerprint message.
\<close>

datatype getIndexOptionsFunc =
    RESTFunc string bool
  | GRPCFunc "Fingerprint option" bool

definition mkGetIndexOptionsFunc :: "bool \<Rightarrow> sourcegraphClient \<Rightarrow> getIndexOptionsFunc" where
  "mkGetIndexOptionsFunc grpc s =
     (if grpc then GRPCFunc (configFingerprintProto s) True
      else RESTFunc (configFingerprint s) True)"

text \<open>One call of the closure: the result, the closure afterwards, the machine afterwards.\<close>

fun getIndexOptions ::
  "'w backend \<Rightarrow> getIndexOptionsFunc \<Rightarrow> uint32 list \<Rightarrow> 'w machine
    \<Rightarrow> (go_error + indexOptionsItem list) \<times> getIndexOptionsFunc \<times> 'w machine" where
  "getIndexOptions env (RESTFunc startingFingerPrint first) repos m =
     (case getIndexOptionsREST env startingFingerPrint repos m of
        (Inl err, m1) \<Rightarrow>
          (Inl err, RESTFunc startingFingerPrint False,
           m1\<lparr>client := (client m1)\<lparr>configFingerprint := startingFingerPrint\<rparr>\<rparr>)
      | (Inr (options, nextFingerPrint), m1) \<Rightarrow>
          if first
          then (Inr options, RESTFunc startingFingerPrint False,
                m1\<lparr>client := (client m1)\<lparr>configFingerprint := nextFingerPrint\<rparr>\<rparr>)
          else (Inr options, RESTFunc startingFingerPrint first, m1))"
| "getIndexOptions env (GRPCFunc startingFingerPrint first) repos m =
     (case getIndexOptionsGRPC env startingFingerPrint repos m of
        (Inl err, m1) \<Rightarrow>
          (Inl err, GRPCFunc startingFingerPrint False,
           m1\<lparr>client := (client m1)\<lparr>configFingerprintProto := startingFingerPrint\<rparr>\<rparr>)
      | (Inr (options, nextFingerPrint), m1) \<Rightarrow>
          if first
          then (Inr options, GRPCFunc startingFingerPrint False,
                m1\<lparr>client := (client m1)\<lparr>configFingerprintProto := nextFingerPrint\<rparr>\<rparr>)
          else (Inr options, GRPCFunc startingFingerPrint first, m1))"

text \<open>Lines 383-394: the consumer is called for the items without an error.\<close>

fun consume :: "indexOptionsItem list \<Rightarrow> 'w machine \<Rightarrow> 'w machine" where
  "consume [] m = m"
| "consume (opt # options) m =
     (if Error opt \<noteq> [] then consume options m
      else consume options (emit (Consumer (IndexOptions opt)) m))"

text \<open>Lines 368-395: the loop over the batches.\<close>

fun iterateBatches ::
  "'w backend \<Rightarrow> getIndexOptionsFunc \<Rightarrow> uint32 list list \<Rightarrow> 'w machine \<Rightarrow> 'w machine" where
  "iterateBatches env f [] m = m"
| "iterateBatches env f (repos # rest) m =
     (case getIndexOptions env f repos m of
        (Inl err, f', m1) \<Rightarrow> iterateBatches env f' rest m1
      | (Inr options, f', m1) \<Rightarrow> iterateBatches env f' rest (consume options m1))"

text \<open>
  \<open>SourcegraphListResult\<close>: the IDs, and what the callback \<open>IterateIndexOptions\<close>
  captured when \<open>List\<close> built it: the batch size and the transport. The repositories
  it captured are \<open>IDs\<close>; the client it reads when it runs.
\<close>

record SourcegraphListResult =
  IDs :: "uint32 list"
  it_batchSize :: int
  it_useGRPC :: bool

definition IterateIndexOptions ::
  "'w backend \<Rightarrow> SourcegraphListResult \<Rightarrow> 'w machine \<Rightarrow> 'w machine" where
  "IterateIndexOptions env res m =
     iterateBatches env (mkGetIndexOptionsFunc (it_useGRPC res) (client m))
       (batched (IDs res) (it_batchSize res)) m"

definition listRepoIDs ::
  "'w backend \<Rightarrow> uint32 list \<Rightarrow> 'w machine \<Rightarrow> (go_error + uint32 list) \<times> 'w machine" where
  "listRepoIDs env indexed m =
     (let (r, w') = listRepoIDsExchange env (useGRPC (client m)) (Hostname (client m)) indexed (world m)
      in (r, m\<lparr>world := w'\<rparr>))"

text \<open>
  \<open>List\<close>. The two readings of the clock (lines 279 and 287) and the outcome of the
  random draw are parameters. \<open>None\<close> is a panic.
\<close>

definition List ::
  "'w backend \<Rightarrow> uint32 list \<Rightarrow> int \<Rightarrow> int \<Rightarrow> nat \<Rightarrow> 'w machine
    \<Rightarrow> ((go_error + SourcegraphListResult) \<times> 'w machine) option" where
  "List env indexed now1 now2 seed m =
     (case listRepoIDs env indexed m of
        (Inl err, m1) \<Rightarrow> Some (Inl (Wrap ''listRepoIDs'' err), m1)
      | (Inr repos, m1) \<Rightarrow>
          (let batchSize = (if BatchSize (client m1) = 0 then 10000 else BatchSize (client m1));
               reset = (if now1 > configFingerprintReset (client m1)
                        then (case resetDuration (length indexed) seed of
                                None \<Rightarrow> None
                              | Some next \<Rightarrow>
                                  Some (m1\<lparr>client := (client m1)
                                          \<lparr>configFingerprintReset := now2 + next,
                                           configFingerprintProto := None,
                                           configFingerprint := []\<rparr>\<rparr>))
                        else Some m1)
           in case reset of
                None \<Rightarrow> None
              | Some m2 \<Rightarrow>
                  Some (Inr \<lparr>IDs = repos, it_batchSize = batchSize,
                              it_useGRPC = useGRPC (client m2)\<rparr>, m2)))"

section \<open>ForceIterateIndexOptions (source lines 404-439)\<close>

text \<open>Lines 430-437: the callbacks for the items of one response.\<close>

fun forceItems :: "indexOptionsItem list \<Rightarrow> 'w machine \<Rightarrow> 'w machine" where
  "forceItems [] m = m"
| "forceItems (opt # opts) m =
     (let m1 = (if RepoID (IndexOptions opt) > 0 \<and> Error opt \<noteq> []
                then emit (OnError (RepoID (IndexOptions opt)) (Err (Error opt))) m
                else m);
          m2 = (if Error opt = [] then emit (OnSuccess (IndexOptions opt)) m1 else m1)
      in forceItems opts m2)"

text \<open>Lines 425-427: \<open>onError\<close> for every ID of a batch whose fetch failed.\<close>

fun forceErrors :: "uint32 list \<Rightarrow> go_error \<Rightarrow> 'w machine \<Rightarrow> 'w machine" where
  "forceErrors [] err m = m"
| "forceErrors (repo # repos) err m = forceErrors repos err (emit (OnError repo err) m)"

text \<open>
  Lines 410-420: the fetch without a fingerprint, on the transport chosen at the start
  of the call; the fingerprint of the response is dropped.
\<close>

definition forceGetIndexOptions ::
  "'w backend \<Rightarrow> bool \<Rightarrow> uint32 list \<Rightarrow> 'w machine \<Rightarrow> (go_error + indexOptionsItem list) \<times> 'w machine" where
  "forceGetIndexOptions env grpc repos m =
     (if grpc
      then (case getIndexOptionsGRPC env None repos m of
              (Inl err, m1) \<Rightarrow> (Inl err, m1)
            | (Inr (opts, _), m1) \<Rightarrow> (Inr opts, m1))
      else (case getIndexOptionsREST env [] repos m of
              (Inl err, m1) \<Rightarrow> (Inl err, m1)
            | (Inr (opts, _), m1) \<Rightarrow> (Inr opts, m1)))"

fun forceBatches :: "'w backend \<Rightarrow> bool \<Rightarrow> uint32 list list \<Rightarrow> 'w machine \<Rightarrow> 'w machine" where
  "forceBatches env grpc [] m = m"
| "forceBatches env grpc (repos # rest) m =
     (case forceGetIndexOptions env grpc repos m of
        (Inl err, m1) \<Rightarrow> forceBatches env grpc rest (forceErrors repos err m1)
      | (Inr opts, m1) \<Rightarrow> forceBatches env grpc rest (forceItems opts m1))"

definition ForceIterateIndexOptions :: "'w backend \<Rightarrow> uint32 list \<Rightarrow> 'w machine \<Rightarrow> 'w machine" where
  "ForceIterateIndexOptions env repos m =
     (let batchSize = (if BatchSize (client m) = 0 then 10000 else BatchSize (client m))
      in forceBatches env (useGRPC (client m)) (batched repos batchSize) m)"

section \<open>What a pass receives\<close>

text \<open>
  The results of the fetches of a pass, batch by batch, in the order of the batches:
  the vocabulary in which the properties below speak of a batch that failed or
  succeeded and of the fingerprint it returned.
\<close>

fun resultsREST ::
  "'w backend \<Rightarrow> string \<Rightarrow> uint32 list list \<Rightarrow> 'w machine
    \<Rightarrow> (go_error + indexOptionsItem list \<times> string) list" where
  "resultsREST env fp [] m = []"
| "resultsREST env fp (repos # rest) m =
     (case getIndexOptionsREST env fp repos m of (r, m1) \<Rightarrow> r # resultsREST env fp rest m1)"

fun resultsGRPC ::
  "'w backend \<Rightarrow> Fingerprint option \<Rightarrow> uint32 list list \<Rightarrow> 'w machine
    \<Rightarrow> (go_error + indexOptionsItem list \<times> Fingerprint option) list" where
  "resultsGRPC env fp [] m = []"
| "resultsGRPC env fp (repos # rest) m =
     (case getIndexOptionsGRPC env fp repos m of (r, m1) \<Rightarrow> r # resultsGRPC env fp rest m1)"

fun resultsForce ::
  "'w backend \<Rightarrow> bool \<Rightarrow> uint32 list list \<Rightarrow> 'w machine \<Rightarrow> (go_error + indexOptionsItem list) list" where
  "resultsForce env grpc [] m = []"
| "resultsForce env grpc (repos # rest) m =
     (case forceGetIndexOptions env grpc repos m of (r, m1) \<Rightarrow> r # resultsForce env grpc rest m1)"

text \<open>The calls of the consumer in a trace, and the ones a result gives rise to.\<close>

fun consumerCalls :: "event list \<Rightarrow> IndexOptions list" where
  "consumerCalls [] = []"
| "consumerCalls (Consumer opts # es) = opts # consumerCalls es"
| "consumerCalls (e # es) = consumerCalls es"

definition delivered :: "indexOptionsItem list \<Rightarrow> IndexOptions list" where
  "delivered options = map IndexOptions (filter (\<lambda>opt. Error opt = []) options)"

fun deliveredOf :: "(go_error + indexOptionsItem list \<times> 'fp) \<Rightarrow> IndexOptions list" where
  "deliveredOf (Inl err) = []"
| "deliveredOf (Inr (options, fp)) = delivered options"

text \<open>
  The requests in a trace: whether an event is a request, and whether it is a request
  that carries no fingerprint (no fingerprint header on the REST request, no
  fingerprint message in the gRPC request).
\<close>

fun isRequest :: "event \<Rightarrow> bool" where
  "isRequest (SentREST req) = True"
| "isRequest (SentGRPC req) = True"
| "isRequest e = False"

fun withoutFingerprint :: "event \<Rightarrow> bool" where
  "withoutFingerprint (SentREST req) = (map_of (ReqHeader req) fingerprintHeader = None)"
| "withoutFingerprint (SentGRPC req) = (rq_Fingerprint req = None)"
| "withoutFingerprint e = False"

text \<open>The calls of \<open>onSuccess\<close> and \<open>onError\<close> in a trace.\<close>

fun isCallback :: "event \<Rightarrow> bool" where
  "isCallback (OnSuccess opts) = True"
| "isCallback (OnError repo err) = True"
| "isCallback e = False"

definition callbacks :: "event list \<Rightarrow> event list" where
  "callbacks es = filter isCallback es"

text \<open>
  The callbacks that lines 430-437 make for one item of a response, and the ones that
  lines 424-437 make for one batch, given the result of its fetch.
\<close>

definition itemCallbacks :: "indexOptionsItem \<Rightarrow> event list" where
  "itemCallbacks opt =
     (if RepoID (IndexOptions opt) > 0 \<and> Error opt \<noteq> []
      then [OnError (RepoID (IndexOptions opt)) (Err (Error opt))] else [])
     @ (if Error opt = [] then [OnSuccess (IndexOptions opt)] else [])"

fun batchCallbacks :: "uint32 list \<Rightarrow> (go_error + indexOptionsItem list) \<Rightarrow> event list" where
  "batchCallbacks repos (Inl err) = map (\<lambda>repo. OnError repo err) repos"
| "batchCallbacks repos (Inr opts) = concat (map itemCallbacks opts)"

text \<open>The repository a callback is made for, and the repositories of the callbacks in a trace, in order.\<close>

fun callbackRepo :: "event \<Rightarrow> uint32 option" where
  "callbackRepo (OnSuccess opts) = Some (RepoID opts)"
| "callbackRepo (OnError repo err) = Some repo"
| "callbackRepo e = None"

fun callbackRepos :: "event list \<Rightarrow> uint32 list" where
  "callbackRepos [] = []"
| "callbackRepos (e # es) =
     (case callbackRepo e of None \<Rightarrow> callbackRepos es | Some repo \<Rightarrow> repo # callbackRepos es)"

text \<open>
  The batches of a call of \<open>ForceIterateIndexOptions\<close>, each with the result of its
  fetch. The batch size is the one of lines 405-408.
\<close>

definition forceBatchSize :: "sourcegraphClient \<Rightarrow> int" where
  "forceBatchSize s = (if BatchSize s = 0 then 10000 else BatchSize s)"

definition forceResults ::
  "'w backend \<Rightarrow> uint32 list \<Rightarrow> 'w machine \<Rightarrow> (uint32 list \<times> (go_error + indexOptionsItem list)) list" where
  "forceResults env repos m =
     zip (batched repos (forceBatchSize (client m)))
         (resultsForce env (useGRPC (client m)) (batched repos (forceBatchSize (client m))) m)"

section \<open>The fake (source lines 808-1078)\<close>

text \<open>
  \<open>sourcegraphFake\<close> reads a directory tree. What it finds there is a parameter: the
  repository names that \<open>visitRepos\<close> visits, in the order of the walk, the error the
  walk ends with, and for every name the marker files of the repository and the result
  of resolving its branches (\<open>getBranches\<close>, lines 976-1014).
\<close>

record repoDir =
  SG_ID :: "int option"
  SG_PRIVATE :: bool
  SG_FORK :: bool
  SG_ARCHIVED :: bool
  SG_PRIORITY :: float64
  SG_DOCUMENT_RANKS :: "string option"
  getBranches :: "go_error + RepositoryBranch list"

record sourcegraphFake =
  RootDir :: string
  visited :: "string list"
  walkError :: "go_error option"
  repoAt :: "string \<Rightarrow> repoDir"
  filepathJoin :: "string \<Rightarrow> string \<Rightarrow> string"

text \<open>\<open>err.Error()\<close>.\<close>

fun errorMessage :: "go_error \<Rightarrow> string" where
  "errorMessage (Err msg) = msg"
| "errorMessage (Wrap prefix err) = prefix @ '': '' @ errorMessage err"

text \<open>
  Lines 1016-1026: the ID of a repository is the number in its file \<open>SG_ID\<close>, when
  there is one that parses, converted to \<open>uint32\<close>, and \<open>fakeID\<close> of its name
  otherwise.
\<close>

definition fake_id :: "sourcegraphFake \<Rightarrow> string \<Rightarrow> uint32" where
  "fake_id sf name = (case SG_ID (repoAt sf name) of Some n \<Rightarrow> word_of_int n | None \<Rightarrow> fakeID name)"

text \<open>The zero value of \<open>indexOptionsItem\<close>.\<close>

definition zeroOptions :: IndexOptions where
  "zeroOptions =
     \<lparr>RepoID = 0, Name = [], CloneURL = [], LargeFiles = None, Symbols = False,
      Branches = None, Priority = 0, DocumentRanksVersion = [], Public = False,
      Fork = False, Archived = False, LanguageMap = None\<rparr>"

definition zeroItem :: indexOptionsItem where
  "zeroItem = \<lparr>IndexOptions = zeroOptions, Error = []\<rparr>"

text \<open>Lines 938-974.\<close>

definition fake_getIndexOptions :: "sourcegraphFake \<Rightarrow> string \<Rightarrow> go_error + IndexOptions" where
  "fake_getIndexOptions sf name =
     (let d = repoAt sf name;
          opts = zeroOptions
                   \<lparr>RepoID := fake_id sf name, Name := name,
                    CloneURL := filepathJoin sf (RootDir sf) name, Symbols := True,
                    Public := \<not> SG_PRIVATE d, Fork := SG_FORK d, Archived := SG_ARCHIVED d,
                    Priority := SG_PRIORITY d\<rparr>;
          opts = (case SG_DOCUMENT_RANKS d of
                    Some modTime \<Rightarrow> opts\<lparr>DocumentRanksVersion := modTime\<rparr>
                  | None \<Rightarrow> opts)
      in case getBranches d of
           Inl err \<Rightarrow> Inl err
         | Inr branches \<Rightarrow> Inr (opts\<lparr>Branches := Some branches\<rparr>))"

text \<open>
  Lines 905-936. \<open>reposIdx\<close> maps an ID to its last position in \<open>repos\<close>; the visit
  of a repository whose ID was asked for writes the item at that position.
\<close>

definition reposIdx :: "uint32 list \<Rightarrow> (uint32 \<rightharpoonup> nat)" where
  "reposIdx repos = foldl (\<lambda>idx (i, repo). idx(repo \<mapsto> i)) Map.empty (zip [0..<length repos] repos)"

definition fake_visit ::
  "sourcegraphFake \<Rightarrow> uint32 list \<Rightarrow> indexOptionsItem list \<Rightarrow> string \<Rightarrow> indexOptionsItem list" where
  "fake_visit sf repos items name =
     (case reposIdx repos (fake_id sf name) of
        None \<Rightarrow> items
      | Some idx \<Rightarrow>
          (case fake_getIndexOptions sf name of
             Inl err \<Rightarrow> items[idx := zeroItem\<lparr>Error := errorMessage err\<rparr>]
           | Inr opts \<Rightarrow> items[idx := zeroItem\<lparr>IndexOptions := opts\<rparr>]))"

definition notFound :: "indexOptionsItem \<Rightarrow> indexOptionsItem" where
  "notFound item =
     (if Error item = [] \<and> RepoID (IndexOptions item) = 0 then item\<lparr>Error := ''not found''\<rparr>
      else item)"

definition fake_GetIndexOptions ::
  "sourcegraphFake \<Rightarrow> uint32 list \<Rightarrow> go_error + indexOptionsItem list" where
  "fake_GetIndexOptions sf repos =
     (let items = foldl (fake_visit sf repos) (replicate (length repos) zeroItem) (visited sf)
      in case walkError sf of
           Some err \<Rightarrow> Inl err
         | None \<Rightarrow> Inr (map notFound items))"

text \<open>
  Lines 887-903: the callbacks of the fake, by the statements of lines 425-427 and
  430-437 again, on the one batch of all the repositories.
\<close>

definition fake_ForceIterateIndexOptions ::
  "sourcegraphFake \<Rightarrow> uint32 list \<Rightarrow> 'w machine \<Rightarrow> 'w machine" where
  "fake_ForceIterateIndexOptions sf repos m =
     (case fake_GetIndexOptions sf repos of
        Inl err \<Rightarrow> forceErrors repos err m
      | Inr opts \<Rightarrow> forceItems opts m)"

section \<open>Concrete inputs\<close>

definition item0 :: indexOptionsItem where
  "item0 =
     \<lparr>IndexOptions =
        \<lparr>RepoID = 7, Name = ''r'', CloneURL = ''u'', LargeFiles = None, Symbols = True,
         Branches = Some [\<lparr>rb_Name = ''HEAD'', rb_Version = ''abc''\<rparr>], Priority = 3,
         DocumentRanksVersion = ''v'', Public = True, Fork = False, Archived = False,
         LanguageMap = Some [''go'' \<mapsto> 2]\<rparr>,
      Error = []\<rparr>"

text \<open>
  A control plane that answers an options request by the repository IDs it asks for,
  on either transport, and lists the repositories 1, 2 and 3.
\<close>

definition scripted ::
  "(nat list \<Rightarrow> go_error + http_response)
    \<Rightarrow> (int32 list \<Rightarrow> go_error + SearchConfigurationResponse) \<Rightarrow> unit backend" where
  "scripted rest grpc =
     \<lparr>NewRequest = (\<lambda>u. None),
      restDo = (\<lambda>req w. (rest (FormRepoID req), w)),
      SearchConfiguration = (\<lambda>req w. (grpc (rq_RepoIds req), w)),
      listRepoIDsExchange = (\<lambda>g host indexed w. (Inr [1, 2, 3], w)),
      ResolveReference = (\<lambda>root p. root @ p),
      pathJoin = (\<lambda>a b. a @ ''/'' @ b)\<rparr>"

definition optionsFor :: "uint32 \<Rightarrow> string \<Rightarrow> string \<Rightarrow> IndexOptions" where
  "optionsFor repo name url =
     \<lparr>RepoID = repo, Name = name, CloneURL = url, LargeFiles = None, Symbols = True,
      Branches = Some [], Priority = 0, DocumentRanksVersion = [], Public = True,
      Fork = False, Archived = False, LanguageMap = Some Map.empty\<rparr>"

definition jsonItem :: "uint32 \<Rightarrow> string \<Rightarrow> string \<Rightarrow> indexOptionsItem" where
  "jsonItem repo name err = \<lparr>IndexOptions = optionsFor repo name [], Error = err\<rparr>"

definition protoItem :: "uint32 \<Rightarrow> string \<Rightarrow> string \<Rightarrow> ZoektIndexOptions" where
  "protoItem repo name err =
     \<lparr>pb_RepoId = ucast repo, pb_LargeFiles = None, pb_Symbols = True, pb_Branches = None,
      pb_Name = name, pb_Priority = 0, pb_DocumentRanksVersion = [], pb_Public = True,
      pb_Fork = False, pb_Archived = False, pb_Error = err, pb_LanguageMap = None\<rparr>"

definition okResponse :: "indexOptionsItem list \<Rightarrow> string \<Rightarrow> http_response" where
  "okResponse items fp =
     \<lparr>StatusCode = 200, Status = ''200 OK'', BodyRead = Inr [], BodyJSON = map Inr items,
      Header = [(fingerprintHeader, fp)]\<rparr>"

text \<open>
  The scenario of the spec: batch [1, 2] returns options for 1, the error "not found"
  for 2 and the fingerprint F1; batch [3] returns options for 3 and the fingerprint F2.
\<close>

definition scenarioREST :: "nat list \<Rightarrow> go_error + http_response" where
  "scenarioREST ids =
     (if ids = [1, 2]
      then Inr (okResponse [jsonItem 1 ''one'' [], jsonItem 2 [] ''not found''] ''F1'')
      else if ids = [3] then Inr (okResponse [jsonItem 3 ''three'' []] ''F2'')
      else Inl (Err ''unexpected request''))"

definition scenarioGRPC :: "int32 list \<Rightarrow> go_error + SearchConfigurationResponse" where
  "scenarioGRPC ids =
     (if ids = [1, 2]
      then Inr \<lparr>rs_UpdatedOptions = [protoItem 1 ''one'' [], protoItem 2 [] ''not found''],
                rs_Fingerprint = Some (Fingerprint ''F1'')\<rparr>
      else if ids = [3]
      then Inr \<lparr>rs_UpdatedOptions = [protoItem 3 ''three'' []],
                rs_Fingerprint = Some (Fingerprint ''F2'')\<rparr>
      else Inl (Err ''unexpected request''))"

text \<open>The same control plane when the exchange for batch [3] fails, and when the one for batch [1, 2] fails.\<close>

definition secondFailsREST :: "nat list \<Rightarrow> go_error + http_response" where
  "secondFailsREST ids = (if ids = [3] then Inl (Err ''connection refused'') else scenarioREST ids)"

definition secondFailsGRPC :: "int32 list \<Rightarrow> go_error + SearchConfigurationResponse" where
  "secondFailsGRPC ids = (if ids = [3] then Inl (Err ''connection refused'') else scenarioGRPC ids)"

definition firstFailsREST :: "nat list \<Rightarrow> go_error + http_response" where
  "firstFailsREST ids = (if ids = [1, 2] then Inl (Err ''connection refused'') else scenarioREST ids)"

definition firstFailsGRPC :: "int32 list \<Rightarrow> go_error + SearchConfigurationResponse" where
  "firstFailsGRPC ids = (if ids = [1, 2] then Inl (Err ''connection refused'') else scenarioGRPC ids)"

text \<open>A client with batch size 2 that holds the fingerprints F0 and P0, and the machine it runs in.\<close>

definition client0 :: "bool \<Rightarrow> sourcegraphClient" where
  "client0 grpc =
     \<lparr>Root = ''http://sg'', Hostname = ''indexserver-0'', BatchSize = 2,
      configFingerprint = ''F0'', configFingerprintProto = Some (Fingerprint ''P0''),
      configFingerprintReset = 1000, useGRPC = grpc\<rparr>"

definition machine0 :: "bool \<Rightarrow> unit machine" where
  "machine0 grpc = \<lparr>client = client0 grpc, world = (), trace = []\<rparr>"

definition result0 :: "bool \<Rightarrow> SourcegraphListResult" where
  "result0 grpc = \<lparr>IDs = [1, 2, 3], it_batchSize = 2, it_useGRPC = grpc\<rparr>"

text \<open>The items of the scenario as the client returns them, with the clone URL it derives.\<close>

definition item1 :: indexOptionsItem where
  "item1 = \<lparr>IndexOptions = optionsFor 1 ''one'' ''http://sg/.internal/git/one'', Error = []\<rparr>"

definition item2 :: indexOptionsItem where
  "item2 = \<lparr>IndexOptions = optionsFor 2 [] ''http://sg/.internal/git/'', Error = ''not found''\<rparr>"

definition item3 :: indexOptionsItem where
  "item3 = \<lparr>IndexOptions = optionsFor 3 ''three'' ''http://sg/.internal/git/three'', Error = []\<rparr>"

text \<open>
  A control plane that answers every options request with one item that has the error
  "not found" and no repository ID.
\<close>

definition notFoundREST :: "nat list \<Rightarrow> go_error + http_response" where
  "notFoundREST ids = Inr (okResponse [jsonItem 0 [] ''not found''] ''F9'')"

definition notFoundGRPC :: "int32 list \<Rightarrow> go_error + SearchConfigurationResponse" where
  "notFoundGRPC ids =
     Inr \<lparr>rs_UpdatedOptions = [protoItem 0 [] ''not found''], rs_Fingerprint = Some (Fingerprint ''F9'')\<rparr>"

text \<open>A root directory that holds no repository.\<close>

definition emptyRoot :: sourcegraphFake where
  "emptyRoot =
     \<lparr>RootDir = ''/data'', visited = [], walkError = None,
      repoAt = (\<lambda>name. \<lparr>SG_ID = None, SG_PRIVATE = False, SG_FORK = False, SG_ARCHIVED = False,
                         SG_PRIORITY = 0, SG_DOCUMENT_RANKS = None,
                         getBranches = Inl (Err ''repository does not exist'')\<rparr>),
      filepathJoin = (\<lambda>a b. a @ ''/'' @ b)\<rparr>"

section \<open>The round trip through the wire format\<close>

lemma ucast_uint8_int32: "(ucast (ucast (p :: uint8) :: int32) :: uint8) = p"
  by (rule ucast_up_ucast_id) (simp add: is_up)

lemma putLanguage_entry:
  "putLanguage m0 (Some \<lparr>pb_Language = a, pb_Ctags = (ucast (p :: uint8) :: int32)\<rparr>) = m0(a \<mapsto> p)"
  by (simp add: putLanguage_def GetLanguage_def GetCtags_def ucast_uint8_int32)

lemma branches_roundtrip:
  "map (\<lambda>b. \<lparr>rb_Name = GetName b, rb_Version = GetVersion b\<rparr>)
       (map (\<lambda>b. Some \<lparr>pbb_Name = rb_Name b, pbb_Version = rb_Version b\<rparr>) xs) = xs"
  by (induction xs) (simp_all add: GetName_def GetVersion_def)

lemma languageMap_fold:
  "foldl putLanguage m0
     (concat (map (\<lambda>lang. case m lang of
                             None \<Rightarrow> []
                           | Some parser \<Rightarrow>
                               [Some \<lparr>pb_Language = lang, pb_Ctags = (ucast parser :: int32)\<rparr>])
                  order))
   = (\<lambda>k. if k \<in> set order \<and> m k \<noteq> None then m k else m0 k)"
proof (induction order arbitrary: m0)
  case Nil
  show ?case by simp
next
  case (Cons a order)
  show ?case
  proof (cases "m a")
    case None
    then show ?thesis using Cons.IH [of m0] by (auto simp: fun_eq_iff)
  next
    case (Some p)
    let ?entries = "\<lambda>ks. concat (map (\<lambda>lang. case m lang of
                             None \<Rightarrow> []
                           | Some parser \<Rightarrow>
                               [Some \<lparr>pb_Language = lang, pb_Ctags = (ucast parser :: int32)\<rparr>])
                  ks)"
    have "foldl putLanguage m0 (?entries (a # order))
          = foldl putLanguage (m0(a \<mapsto> p)) (?entries order)"
      by (simp add: Some putLanguage_entry)
    also have "\<dots> = (\<lambda>k. if k \<in> set order \<and> m k \<noteq> None then m k else (m0(a \<mapsto> p)) k)"
      by (rule Cons.IH)
    also have "\<dots> = (\<lambda>k. if k \<in> set (a # order) \<and> m k \<noteq> None then m k else m0 k)"
      using Some by (auto simp: fun_eq_iff)
    finally show ?thesis .
  qed
qed

text \<open>
  C10. For an item whose \<open>Branches\<close> slice and \<open>LanguageMap\<close> map are not \<open>nil\<close>,
  converting to the wire message and back gives the item again on every field but
  \<open>CloneURL\<close>, which comes back empty. This holds for every order in which the
  runtime ranges over the language map, and for every parser value: an \<open>uint8\<close>
  survives the widening to the wire enum's \<open>int32\<close> and the narrowing back, so the
  values need not be among the named members of the enum.
\<close>

theorem indexOptionsItem_proto_roundtrip:
  assumes b: "Branches (IndexOptions x) \<noteq> None"
    and l: "LanguageMap (IndexOptions x) \<noteq> None"
    and r: "range_order (LanguageMap (IndexOptions x)) order"
  shows "FromProto (ToProto order x)
         = x\<lparr>IndexOptions := (IndexOptions x)\<lparr>CloneURL := []\<rparr>\<rparr>"
proof -
  obtain bs where bs: "Branches (IndexOptions x) = Some bs" using b by auto
  obtain m where m: "LanguageMap (IndexOptions x) = Some m" using l by auto
  have dm: "set order = dom m" using r m by (simp add: range_order_def)
  have lm: "(\<lambda>k. if k \<in> set order \<and> m k \<noteq> None then m k else Map.empty k) = m"
    using dm by (auto simp: fun_eq_iff dom_def)
  have lm': "foldl putLanguage Map.empty
     (concat (map (\<lambda>lang. case m lang of
                             None \<Rightarrow> []
                           | Some parser \<Rightarrow>
                               [Some \<lparr>pb_Language = lang, pb_Ctags = (ucast parser :: int32)\<rparr>])
                  order)) = m"
    by (simp only: languageMap_fold lm)
  have "IndexOptions (FromProto (ToProto order x)) = (IndexOptions x)\<lparr>CloneURL := []\<rparr>"
    unfolding FromProto_def ToProto_def Let_def
    by (rule IndexOptions.equality)
       (simp_all add: bs m elems_def branches_roundtrip lm' del: map_map)
  moreover have "Error (FromProto (ToProto order x)) = Error x"
    by (simp add: FromProto_def ToProto_def Let_def)
  ultimately show ?thesis
    by (intro indexOptionsItem.equality) simp_all
qed

theorem indexOptionsItem_proto_roundtrip_witness:
  "Branches (IndexOptions item0) \<noteq> None \<and> LanguageMap (IndexOptions item0) \<noteq> None
   \<and> range_order (LanguageMap (IndexOptions item0)) [''go'']
   \<and> FromProto (ToProto [''go''] item0)
       = item0\<lparr>IndexOptions := (IndexOptions item0)\<lparr>CloneURL := []\<rparr>\<rparr>"
  using indexOptionsItem_proto_roundtrip [of item0 "[''go'']"]
  by (simp add: item0_def range_order_def)

section \<open>The fake's repository ID\<close>

text \<open>
  C9. \<open>fakeID\<close> is a function of the name alone, and its value lies between 1 and
  \<open>2^31 - 1\<close>; in particular it is never 0, the ID that stands for "not found".
\<close>

theorem fakeID_range:
  "(name = name' \<longrightarrow> fakeID name = fakeID name')
   \<and> 1 \<le> unat (fakeID name) \<and> unat (fakeID name) \<le> 2 ^ 31 - 1 \<and> fakeID name \<noteq> 0"
proof -
  let ?c = "ChecksumIEEE (bytes_of name)"
  let ?m = "(2 ^ 31 - 1 :: uint32)"
  have m: "unat ?m = 2147483647" by simp
  have "unat (?c mod ?m) = unat ?c mod unat ?m" by (simp add: unat_mod)
  then have lt: "unat (?c mod ?m) < 2147483647" using m by simp
  have "unat (?c mod ?m + 1) = unat (?c mod ?m) + 1"
    using lt by (simp add: unat_word_ariths)
  then have r: "1 \<le> unat (fakeID name) \<and> unat (fakeID name) \<le> 2 ^ 31 - 1"
    using lt by (simp add: fakeID_def)
  then have "unat (fakeID name) \<noteq> 0" by simp
  then have "fakeID name \<noteq> 0" by (simp add: unat_eq_0)
  with r show ?thesis by simp
qed

theorem fakeID_range_witness:
  "fakeID [] = fakeID [] \<and> fakeID [] = 1 \<and> 1 \<le> unat (fakeID []) \<and> unat (fakeID []) \<le> 2 ^ 31 - 1
   \<and> fakeID [] \<noteq> 0"
  using fakeID_range [of "[]" "[]"]
  by (simp add: fakeID_def ChecksumIEEE_def bytes_of_def)

section \<open>The reset deadline\<close>

lemma int64_id: "- (2 ^ 63) \<le> x \<Longrightarrow> x < 2 ^ 63 \<Longrightarrow> int64 x = x"
  by (simp add: int64_def)

lemma int64_range: "- (2 ^ 63) \<le> int64 x \<and> int64 x < 2 ^ 63"
proof -
  have "0 \<le> (x + 2 ^ 63) mod (2 ^ 64 :: int)" by simp
  moreover have "(x + 2 ^ 63) mod (2 ^ 64 :: int) < 2 ^ 64" by simp
  ultimately show ?thesis unfolding int64_def by simp
qed

lemma int64_le: "0 \<le> x \<Longrightarrow> int64 x \<le> x"
proof (cases "x < 2 ^ 63")
  case True
  assume "0 \<le> x"
  with True show ?thesis by (simp add: int64_id)
next
  case False
  then show ?thesis using int64_range [of x] by simp
qed

lemma quo_pos: "0 \<le> a \<Longrightarrow> 0 < b \<Longrightarrow> quo a b = a div b"
  by (cases "a = 0") (simp_all add: quo_def)

lemma quo_neg: "a < 0 \<Longrightarrow> 0 < b \<Longrightarrow> quo a b \<le> 0"
  by (simp add: quo_def pos_imp_zdiv_nonneg_iff)

lemma resetBase_lower: "5 * Minute \<le> resetBase n"
  by (simp add: resetBase_def Let_def int64_id Minute_def)

lemma resetBase_upper: "resetBase n \<le> max (5 * Minute) (int n * Minute div 500)"
proof -
  let ?p = "int64 (int n * Minute)"
  have "quo ?p 500 \<le> int n * Minute div 500"
  proof (cases "0 \<le> ?p")
    case True
    have "?p \<le> int n * Minute" by (rule int64_le) (simp add: Minute_def)
    then have "?p div 500 \<le> int n * Minute div 500" by (rule zdiv_mono1) simp
    then show ?thesis using True by (simp add: quo_pos)
  next
    case False
    then have "quo ?p 500 \<le> 0" by (simp add: quo_neg)
    moreover have "0 \<le> int n * Minute div 500" by (simp add: Minute_def)
    ultimately show ?thesis by simp
  qed
  then show ?thesis
    by (simp add: resetBase_def Let_def int64_id Minute_def)
qed

lemma resetBase_small: "resetBase n < 2 ^ 62"
proof -
  let ?p = "int64 (int n * Minute)"
  have "quo ?p 500 < 2 ^ 62"
  proof (cases "0 \<le> ?p")
    case True
    have "?p < 2 ^ 63" using int64_range [of "int n * Minute"] by simp
    then have "?p div 500 < 2 ^ 62" by simp
    then show ?thesis using True by (simp add: quo_pos)
  next
    case False
    then have "quo ?p 500 \<le> 0" by (simp add: quo_neg)
    then show ?thesis by simp
  qed
  then show ?thesis
    by (simp add: resetBase_def Let_def int64_id Minute_def)
qed

lemma resetDuration_between:
  "\<exists>d. resetDuration n seed = Some d \<and> resetBase n \<le> d \<and> d < resetBase n + resetBase n div 4"
proof -
  let ?b = "resetBase n"
  have lo: "5 * Minute \<le> ?b" by (rule resetBase_lower)
  have hi: "?b < 2 ^ 62" by (rule resetBase_small)
  have q: "quo ?b 4 = ?b div 4" using lo by (simp add: quo_pos Minute_def)
  have qpos: "0 < ?b div 4" using lo by (simp add: Minute_def)
  let ?j = "int seed mod (?b div 4)"
  have j0: "0 \<le> ?j" using qpos by simp
  have j1: "?j < ?b div 4" using qpos by simp
  have r: "resetDuration n seed = Some (int64 (?b + ?j))"
    using qpos by (simp add: resetDuration_def Int63n_def q)
  have "?b + ?j < 2 ^ 63" using hi j1 by simp
  moreover have "- (2 ^ 63) \<le> ?b + ?j"
  proof -
    have "0 \<le> ?b" using lo by (simp add: Minute_def)
    then have "0 \<le> ?b + ?j" using j0 by linarith
    moreover have "- (2 ^ 63) \<le> (0::int)" by simp
    ultimately show ?thesis by linarith
  qed
  ultimately have "int64 (?b + ?j) = ?b + ?j" by (simp add: int64_id)
  with r j0 j1 show ?thesis by simp
qed

text \<open>
  C4, as the claim states it, fails: with no indexed repository the claimed upper bound
  is five minutes sharp, yet the jitter is drawn below a quarter of five minutes and
  added, so a draw of one nanosecond already gives a duration above the bound.
\<close>

theorem reset_duration_claimed_bound_counterexample:
  "resetDuration 0 1 = Some 300000000001
   \<and> \<not> (real_of_int 300000000001
          \<le> real_of_int (5 * Minute) + 1.25 * (real 0 * real_of_int Minute / 500))"
  by (simp add: resetDuration_def resetBase_def Int63n_def quo_def int64_def Minute_def)

section \<open>One fetch and the machine\<close>

lemma withCloneURL_Root: "Root s = Root s' \<Longrightarrow> withCloneURL env s item = withCloneURL env s' item"
  by (simp add: withCloneURL_def getCloneURL_def)

lemma decodeItems_Root:
  "Root s = Root s' \<Longrightarrow> decodeItems env s xs acc = decodeItems env s' xs acc"
proof (induction env s xs acc rule: decodeItems.induct)
  case (3 env s opt rest opts)
  then show ?case using withCloneURL_Root [of s s' env opt] by simp
qed simp_all

lemma configurationURL_Root: "Root s = Root s' \<Longrightarrow> configurationURL env s = configurationURL env s'"
  by (simp add: configurationURL_def)

lemma restRequest_Root:
  "Root s = Root s' \<Longrightarrow> restRequest env s fp repos = restRequest env s' fp repos"
  using configurationURL_Root [of s s' env] by (simp add: restRequest_def)

lemma readResponse_Root:
  "Root s = Root s' \<Longrightarrow> readResponse env s resp = readResponse env s' resp"
  using configurationURL_Root [of s s' env] decodeItems_Root [of s s' env]
  by (simp add: readResponse_def split: sum.splits)

lemma no_fingerprint_header:
  "map_of (ReqHeader (asInternal (restRequest env s [] repos))) fingerprintHeader = None"
  by (simp add: asInternal_def restRequest_def fingerprintHeader_def update_conv')

text \<open>
  One REST fetch: its result, the new state of the world and the request it sends
  depend on the machine only through the world and the client's root URL; the client
  is left as it is.
\<close>

lemma REST_shape:
  "\<exists>r w' sent.
     (\<forall>m'. world m' = world m \<longrightarrow> Root (client m') = Root (client m) \<longrightarrow>
        getIndexOptionsREST env fp repos m' = (r, m'\<lparr>world := w', trace := trace m' @ sent\<rparr>))
     \<and> (\<forall>e\<in>set sent. isRequest e \<and> (fp = [] \<longrightarrow> withoutFingerprint e))"
proof (cases "NewRequest env (configurationURL env (client m))")
  case (Some err)
  have "\<forall>m'. world m' = world m \<longrightarrow> Root (client m') = Root (client m) \<longrightarrow>
        getIndexOptionsREST env fp repos m' = (Inl err, m'\<lparr>world := world m, trace := trace m' @ []\<rparr>)"
  proof (intro allI impI)
    fix m' :: "'a machine"
    assume w: "world m' = world m" and r: "Root (client m') = Root (client m)"
    have "NewRequest env (configurationURL env (client m')) = Some err"
      using Some configurationURL_Root [OF r, of env] by simp
    then show "getIndexOptionsREST env fp repos m' = (Inl err, m'\<lparr>world := world m, trace := trace m' @ []\<rparr>)"
      using w by (simp add: getIndexOptionsREST_def)
  qed
  then show ?thesis by (intro exI [of _ "Inl err"] exI [of _ "world m"] exI [of _ "[]"]) simp
next
  case None
  let ?req = "asInternal (restRequest env (client m) fp repos)"
  obtain r w' where rd: "restDo env ?req (world m) = (r, w')" by (cases "restDo env ?req (world m)")
  let ?res = "case r of Inl err \<Rightarrow> Inl err | Inr resp \<Rightarrow> readResponse env (client m) resp"
  have "\<forall>m'. world m' = world m \<longrightarrow> Root (client m') = Root (client m) \<longrightarrow>
        getIndexOptionsREST env fp repos m' = (?res, m'\<lparr>world := w', trace := trace m' @ [SentREST ?req]\<rparr>)"
  proof (intro allI impI)
    fix m' :: "'a machine"
    assume w: "world m' = world m" and rt: "Root (client m') = Root (client m)"
    have n: "NewRequest env (configurationURL env (client m')) = None"
      using None configurationURL_Root [OF rt, of env] by simp
    have q: "restRequest env (client m') fp repos = restRequest env (client m) fp repos"
      by (rule restRequest_Root [OF rt])
    have d: "doRequest env (restRequest env (client m') fp repos) m'
             = (r, m'\<lparr>world := w', trace := trace m' @ [SentREST ?req]\<rparr>)"
      by (simp add: doRequest_def q w rd emit_def)
    show "getIndexOptionsREST env fp repos m' = (?res, m'\<lparr>world := w', trace := trace m' @ [SentREST ?req]\<rparr>)"
      using readResponse_Root [OF rt, of env]
      by (cases r) (simp_all add: getIndexOptionsREST_def n d)
  qed
  moreover have "fp = [] \<longrightarrow> withoutFingerprint (SentREST ?req)"
    by (simp add: no_fingerprint_header)
  ultimately show ?thesis
    by (intro exI [of _ ?res] exI [of _ w'] exI [of _ "[SentREST ?req]"]) simp
qed

lemma GRPC_shape:
  "\<exists>r w' sent.
     (\<forall>m'. world m' = world m \<longrightarrow> Root (client m') = Root (client m) \<longrightarrow>
        getIndexOptionsGRPC env fp repos m' = (r, m'\<lparr>world := w', trace := trace m' @ sent\<rparr>))
     \<and> (\<forall>e\<in>set sent. isRequest e \<and> (fp = None \<longrightarrow> withoutFingerprint e))"
proof -
  let ?req = "grpcRequest fp repos"
  obtain r w' where sc: "SearchConfiguration env ?req (world m) = (r, w')"
    by (cases "SearchConfiguration env ?req (world m)")
  let ?res = "case r of Inl err \<Rightarrow> Inl err
              | Inr response \<Rightarrow>
                  Inr (map (\<lambda>x. withCloneURL env (client m) (FromProto x)) (rs_UpdatedOptions response),
                       rs_Fingerprint response)"
  have "\<forall>m'. world m' = world m \<longrightarrow> Root (client m') = Root (client m) \<longrightarrow>
        getIndexOptionsGRPC env fp repos m' = (?res, m'\<lparr>world := w', trace := trace m' @ [SentGRPC ?req]\<rparr>)"
  proof (intro allI impI)
    fix m' :: "'a machine"
    assume w: "world m' = world m" and rt: "Root (client m') = Root (client m)"
    have c: "\<And>x. withCloneURL env (client m') x = withCloneURL env (client m) x"
      by (rule withCloneURL_Root [OF rt])
    show "getIndexOptionsGRPC env fp repos m' = (?res, m'\<lparr>world := w', trace := trace m' @ [SentGRPC ?req]\<rparr>)"
      by (cases r) (simp_all add: getIndexOptionsGRPC_def w sc emit_def c)
  qed
  moreover have "fp = None \<longrightarrow> withoutFingerprint (SentGRPC ?req)"
    by (simp add: grpcRequest_def)
  ultimately show ?thesis
    by (intro exI [of _ ?res] exI [of _ w'] exI [of _ "[SentGRPC ?req]"]) simp
qed

lemma consume_client [simp]: "client (consume options m) = client m"
  by (induction options arbitrary: m) (simp_all add: emit_def)

lemma consume_world [simp]: "world (consume options m) = world m"
  by (induction options arbitrary: m) (simp_all add: emit_def)

lemma consume_trace: "trace (consume options m) = trace m @ map Consumer (delivered options)"
  by (induction options arbitrary: m) (simp_all add: emit_def delivered_def)

lemma consumerCalls_append: "consumerCalls (xs @ ys) = consumerCalls xs @ consumerCalls ys"
  by (induction xs rule: consumerCalls.induct) simp_all

lemma consumerCalls_Consumer: "consumerCalls (map Consumer xs) = xs"
  by (induction xs) simp_all

lemma consumerCalls_requests: "\<forall>e\<in>set es. isRequest e \<Longrightarrow> consumerCalls es = []"
  by (induction es rule: consumerCalls.induct) simp_all

lemma resultsREST_cong:
  "world m' = world m \<Longrightarrow> Root (client m') = Root (client m)
   \<Longrightarrow> resultsREST env fp bs m' = resultsREST env fp bs m"
proof (induction bs arbitrary: m m')
  case Nil
  show ?case by simp
next
  case (Cons b bs)
  obtain r w' sent where s:
    "\<And>m''. world m'' = world m \<Longrightarrow> Root (client m'') = Root (client m) \<Longrightarrow>
        getIndexOptionsREST env fp b m'' = (r, m''\<lparr>world := w', trace := trace m'' @ sent\<rparr>)"
    using REST_shape [of m env fp b] by blast
  have a: "getIndexOptionsREST env fp b m = (r, m\<lparr>world := w', trace := trace m @ sent\<rparr>)"
    by (rule s) simp_all
  have b: "getIndexOptionsREST env fp b m' = (r, m'\<lparr>world := w', trace := trace m' @ sent\<rparr>)"
    by (rule s) (simp_all add: Cons.prems)
  have "resultsREST env fp bs (m'\<lparr>world := w', trace := trace m' @ sent\<rparr>)
        = resultsREST env fp bs (m\<lparr>world := w', trace := trace m @ sent\<rparr>)"
    by (rule Cons.IH) (simp_all add: Cons.prems)
  then show ?case by (simp add: a b)
qed

section \<open>A pass over the batches, REST\<close>

lemma REST_later:
  "client (iterateBatches env (RESTFunc start False) bs m)
   = (if \<exists>r\<in>set (resultsREST env start bs m). isl r
      then (client m)\<lparr>configFingerprint := start\<rparr> else client m)"
proof (induction bs arbitrary: m)
  case Nil
  show ?case by simp
next
  case (Cons b bs)
  obtain r w' sent where s:
    "\<And>m'. world m' = world m \<Longrightarrow> Root (client m') = Root (client m) \<Longrightarrow>
        getIndexOptionsREST env start b m' = (r, m'\<lparr>world := w', trace := trace m' @ sent\<rparr>)"
    using REST_shape [of m env start b] by blast
  let ?m1 = "m\<lparr>world := w', trace := trace m @ sent\<rparr>"
  have a: "getIndexOptionsREST env start b m = (r, ?m1)" by (rule s) simp_all
  have res: "resultsREST env start (b # bs) m = r # resultsREST env start bs ?m1"
    by (simp add: a)
  show ?case
  proof (cases r)
    case (Inl err)
    let ?mF = "?m1\<lparr>client := (client ?m1)\<lparr>configFingerprint := start\<rparr>\<rparr>"
    have step: "iterateBatches env (RESTFunc start False) (b # bs) m
          = iterateBatches env (RESTFunc start False) bs ?mF"
      by (simp add: a Inl)
    have ih: "client (iterateBatches env (RESTFunc start False) bs ?mF)
       = (if \<exists>r\<in>set (resultsREST env start bs ?mF). isl r
          then (client ?mF)\<lparr>configFingerprint := start\<rparr> else client ?mF)"
      by (rule Cons.IH)
    have cl: "client ?mF = (client m)\<lparr>configFingerprint := start\<rparr>" by simp
    show ?thesis unfolding step ih res cl by (simp add: Inl)
  next
    case (Inr p)
    obtain options nfp where p: "p = (options, nfp)" by (cases p)
    let ?mC = "consume options ?m1"
    have c: "resultsREST env start bs ?mC = resultsREST env start bs ?m1"
      by (rule resultsREST_cong) simp_all
    have step: "iterateBatches env (RESTFunc start False) (b # bs) m
          = iterateBatches env (RESTFunc start False) bs ?mC"
      by (simp add: a Inr p)
    have ih: "client (iterateBatches env (RESTFunc start False) bs ?mC)
       = (if \<exists>r\<in>set (resultsREST env start bs ?mC). isl r
          then (client ?mC)\<lparr>configFingerprint := start\<rparr> else client ?mC)"
      by (rule Cons.IH)
    have cl: "client ?mC = client m" by simp
    show ?thesis unfolding step ih res c cl by (simp add: Inr)
  qed
qed

lemma REST_first:
  assumes "resultsREST env start (b # bs) m = r # rs"
  shows "client (iterateBatches env (RESTFunc start True) (b # bs) m)
   = (case r of
        Inl err \<Rightarrow> (client m)\<lparr>configFingerprint := start\<rparr>
      | Inr (options, nfp) \<Rightarrow>
          (client m)\<lparr>configFingerprint := (if \<exists>r\<in>set rs. isl r then start else nfp)\<rparr>)"
proof -
  obtain r' w' sent where s:
    "\<And>m'. world m' = world m \<Longrightarrow> Root (client m') = Root (client m) \<Longrightarrow>
        getIndexOptionsREST env start b m' = (r', m'\<lparr>world := w', trace := trace m' @ sent\<rparr>)"
    using REST_shape [of m env start b] by blast
  let ?m1 = "m\<lparr>world := w', trace := trace m @ sent\<rparr>"
  have a: "getIndexOptionsREST env start b m = (r', ?m1)" by (rule s) simp_all
  have r: "r' = r" and rs: "rs = resultsREST env start bs ?m1"
    using assms by (simp_all add: a)
  show ?thesis
  proof (cases r)
    case (Inl err)
    let ?mF = "?m1\<lparr>client := (client ?m1)\<lparr>configFingerprint := start\<rparr>\<rparr>"
    have step: "iterateBatches env (RESTFunc start True) (b # bs) m
          = iterateBatches env (RESTFunc start False) bs ?mF"
      by (simp add: a r Inl)
    have cl: "client ?mF = (client m)\<lparr>configFingerprint := start\<rparr>" by simp
    show ?thesis unfolding step REST_later cl by (simp add: Inl)
  next
    case (Inr p)
    obtain options nfp where p: "p = (options, nfp)" by (cases p)
    let ?mN = "?m1\<lparr>client := (client ?m1)\<lparr>configFingerprint := nfp\<rparr>\<rparr>"
    let ?mC = "consume options ?mN"
    have c: "resultsREST env start bs ?mC = resultsREST env start bs ?m1"
      by (rule resultsREST_cong) simp_all
    have step: "iterateBatches env (RESTFunc start True) (b # bs) m
          = iterateBatches env (RESTFunc start False) bs ?mC"
      by (simp add: a r Inr p)
    have cl: "client ?mC = (client m)\<lparr>configFingerprint := nfp\<rparr>" by simp
    show ?thesis unfolding step REST_later c cl rs [symmetric] by (simp add: Inr p)
  qed
qed

lemma REST_calls:
  "consumerCalls (trace (iterateBatches env (RESTFunc start first) bs m))
   = consumerCalls (trace m) @ concat (map deliveredOf (resultsREST env start bs m))"
proof (induction bs arbitrary: m first)
  case Nil
  show ?case by simp
next
  case (Cons b bs)
  obtain r w' sent where s:
    "\<And>m'. world m' = world m \<Longrightarrow> Root (client m') = Root (client m) \<Longrightarrow>
        getIndexOptionsREST env start b m' = (r, m'\<lparr>world := w', trace := trace m' @ sent\<rparr>)"
    and q: "\<forall>e\<in>set sent. isRequest e"
    using REST_shape [of m env start b] by blast
  let ?m1 = "m\<lparr>world := w', trace := trace m @ sent\<rparr>"
  have a: "getIndexOptionsREST env start b m = (r, ?m1)" by (rule s) simp_all
  have res: "resultsREST env start (b # bs) m = r # resultsREST env start bs ?m1"
    by (simp add: a)
  have t1: "consumerCalls (trace ?m1) = consumerCalls (trace m)"
    using q by (simp add: consumerCalls_append consumerCalls_requests)
  show ?case
  proof (cases r)
    case (Inl err)
    let ?mF = "?m1\<lparr>client := (client ?m1)\<lparr>configFingerprint := start\<rparr>\<rparr>"
    have c: "resultsREST env start bs ?mF = resultsREST env start bs ?m1"
      by (rule resultsREST_cong) simp_all
    have step: "iterateBatches env (RESTFunc start first) (b # bs) m
          = iterateBatches env (RESTFunc start False) bs ?mF"
      by (simp add: a Inl)
    have ih: "consumerCalls (trace (iterateBatches env (RESTFunc start False) bs ?mF))
       = consumerCalls (trace ?mF) @ concat (map deliveredOf (resultsREST env start bs ?mF))"
      by (rule Cons.IH)
    have tF: "consumerCalls (trace ?mF) = consumerCalls (trace m)" using t1 by simp
    show ?thesis unfolding step ih c tF res by (simp add: Inl)
  next
    case (Inr p)
    obtain options nfp where p: "p = (options, nfp)" by (cases p)
    let ?mN = "if first then ?m1\<lparr>client := (client ?m1)\<lparr>configFingerprint := nfp\<rparr>\<rparr> else ?m1"
    let ?mC = "consume options ?mN"
    have c: "resultsREST env start bs ?mC = resultsREST env start bs ?m1"
      by (rule resultsREST_cong) simp_all
    have t2: "consumerCalls (trace ?mC) = consumerCalls (trace m) @ delivered options"
      using t1 by (simp add: consume_trace consumerCalls_append consumerCalls_Consumer)
    have step: "iterateBatches env (RESTFunc start first) (b # bs) m
          = iterateBatches env (RESTFunc start False) bs ?mC"
      by (simp add: a Inr p)
    have ih: "consumerCalls (trace (iterateBatches env (RESTFunc start False) bs ?mC))
       = consumerCalls (trace ?mC) @ concat (map deliveredOf (resultsREST env start bs ?mC))"
      by (rule Cons.IH)
    show ?thesis unfolding step ih c t2 res by (simp add: Inr p)
  qed
qed

lemma resultsREST_length: "length (resultsREST env fp bs m) = length bs"
  by (induction bs arbitrary: m) (simp_all split: prod.splits)

section \<open>A pass over the batches, gRPC\<close>

lemma resultsGRPC_cong:
  "world m' = world m \<Longrightarrow> Root (client m') = Root (client m)
   \<Longrightarrow> resultsGRPC env fp bs m' = resultsGRPC env fp bs m"
proof (induction bs arbitrary: m m')
  case Nil
  show ?case by simp
next
  case (Cons b bs)
  obtain r w' sent where s:
    "\<And>m''. world m'' = world m \<Longrightarrow> Root (client m'') = Root (client m) \<Longrightarrow>
        getIndexOptionsGRPC env fp b m'' = (r, m''\<lparr>world := w', trace := trace m'' @ sent\<rparr>)"
    using GRPC_shape [of m env fp b] by blast
  have a: "getIndexOptionsGRPC env fp b m = (r, m\<lparr>world := w', trace := trace m @ sent\<rparr>)"
    by (rule s) simp_all
  have b: "getIndexOptionsGRPC env fp b m' = (r, m'\<lparr>world := w', trace := trace m' @ sent\<rparr>)"
    by (rule s) (simp_all add: Cons.prems)
  have "resultsGRPC env fp bs (m'\<lparr>world := w', trace := trace m' @ sent\<rparr>)
        = resultsGRPC env fp bs (m\<lparr>world := w', trace := trace m @ sent\<rparr>)"
    by (rule Cons.IH) (simp_all add: Cons.prems)
  then show ?case by (simp add: a b)
qed



lemma GRPC_later:
  "client (iterateBatches env (GRPCFunc start False) bs m)
   = (if \<exists>r\<in>set (resultsGRPC env start bs m). isl r
      then (client m)\<lparr>configFingerprintProto := start\<rparr> else client m)"
proof (induction bs arbitrary: m)
  case Nil
  show ?case by simp
next
  case (Cons b bs)
  obtain r w' sent where s:
    "\<And>m'. world m' = world m \<Longrightarrow> Root (client m') = Root (client m) \<Longrightarrow>
        getIndexOptionsGRPC env start b m' = (r, m'\<lparr>world := w', trace := trace m' @ sent\<rparr>)"
    using GRPC_shape [of m env start b] by blast
  let ?m1 = "m\<lparr>world := w', trace := trace m @ sent\<rparr>"
  have a: "getIndexOptionsGRPC env start b m = (r, ?m1)" by (rule s) simp_all
  have res: "resultsGRPC env start (b # bs) m = r # resultsGRPC env start bs ?m1"
    by (simp add: a)
  show ?case
  proof (cases r)
    case (Inl err)
    let ?mF = "?m1\<lparr>client := (client ?m1)\<lparr>configFingerprintProto := start\<rparr>\<rparr>"
    have step: "iterateBatches env (GRPCFunc start False) (b # bs) m
          = iterateBatches env (GRPCFunc start False) bs ?mF"
      by (simp add: a Inl)
    have ih: "client (iterateBatches env (GRPCFunc start False) bs ?mF)
       = (if \<exists>r\<in>set (resultsGRPC env start bs ?mF). isl r
          then (client ?mF)\<lparr>configFingerprintProto := start\<rparr> else client ?mF)"
      by (rule Cons.IH)
    have cl: "client ?mF = (client m)\<lparr>configFingerprintProto := start\<rparr>" by simp
    show ?thesis unfolding step ih res cl by (simp add: Inl)
  next
    case (Inr p)
    obtain options nfp where p: "p = (options, nfp)" by (cases p)
    let ?mC = "consume options ?m1"
    have c: "resultsGRPC env start bs ?mC = resultsGRPC env start bs ?m1"
      by (rule resultsGRPC_cong) simp_all
    have step: "iterateBatches env (GRPCFunc start False) (b # bs) m
          = iterateBatches env (GRPCFunc start False) bs ?mC"
      by (simp add: a Inr p)
    have ih: "client (iterateBatches env (GRPCFunc start False) bs ?mC)
       = (if \<exists>r\<in>set (resultsGRPC env start bs ?mC). isl r
          then (client ?mC)\<lparr>configFingerprintProto := start\<rparr> else client ?mC)"
      by (rule Cons.IH)
    have cl: "client ?mC = client m" by simp
    show ?thesis unfolding step ih res c cl by (simp add: Inr)
  qed
qed

lemma GRPC_first:
  assumes "resultsGRPC env start (b # bs) m = r # rs"
  shows "client (iterateBatches env (GRPCFunc start True) (b # bs) m)
   = (case r of
        Inl err \<Rightarrow> (client m)\<lparr>configFingerprintProto := start\<rparr>
      | Inr (options, nfp) \<Rightarrow>
          (client m)\<lparr>configFingerprintProto := (if \<exists>r\<in>set rs. isl r then start else nfp)\<rparr>)"
proof -
  obtain r' w' sent where s:
    "\<And>m'. world m' = world m \<Longrightarrow> Root (client m') = Root (client m) \<Longrightarrow>
        getIndexOptionsGRPC env start b m' = (r', m'\<lparr>world := w', trace := trace m' @ sent\<rparr>)"
    using GRPC_shape [of m env start b] by blast
  let ?m1 = "m\<lparr>world := w', trace := trace m @ sent\<rparr>"
  have a: "getIndexOptionsGRPC env start b m = (r', ?m1)" by (rule s) simp_all
  have r: "r' = r" and rs: "rs = resultsGRPC env start bs ?m1"
    using assms by (simp_all add: a)
  show ?thesis
  proof (cases r)
    case (Inl err)
    let ?mF = "?m1\<lparr>client := (client ?m1)\<lparr>configFingerprintProto := start\<rparr>\<rparr>"
    have step: "iterateBatches env (GRPCFunc start True) (b # bs) m
          = iterateBatches env (GRPCFunc start False) bs ?mF"
      by (simp add: a r Inl)
    have cl: "client ?mF = (client m)\<lparr>configFingerprintProto := start\<rparr>" by simp
    show ?thesis unfolding step GRPC_later cl by (simp add: Inl)
  next
    case (Inr p)
    obtain options nfp where p: "p = (options, nfp)" by (cases p)
    let ?mN = "?m1\<lparr>client := (client ?m1)\<lparr>configFingerprintProto := nfp\<rparr>\<rparr>"
    let ?mC = "consume options ?mN"
    have c: "resultsGRPC env start bs ?mC = resultsGRPC env start bs ?m1"
      by (rule resultsGRPC_cong) simp_all
    have step: "iterateBatches env (GRPCFunc start True) (b # bs) m
          = iterateBatches env (GRPCFunc start False) bs ?mC"
      by (simp add: a r Inr p)
    have cl: "client ?mC = (client m)\<lparr>configFingerprintProto := nfp\<rparr>" by simp
    show ?thesis unfolding step GRPC_later c cl rs [symmetric] by (simp add: Inr p)
  qed
qed

lemma GRPC_calls:
  "consumerCalls (trace (iterateBatches env (GRPCFunc start first) bs m))
   = consumerCalls (trace m) @ concat (map deliveredOf (resultsGRPC env start bs m))"
proof (induction bs arbitrary: m first)
  case Nil
  show ?case by simp
next
  case (Cons b bs)
  obtain r w' sent where s:
    "\<And>m'. world m' = world m \<Longrightarrow> Root (client m') = Root (client m) \<Longrightarrow>
        getIndexOptionsGRPC env start b m' = (r, m'\<lparr>world := w', trace := trace m' @ sent\<rparr>)"
    and q: "\<forall>e\<in>set sent. isRequest e"
    using GRPC_shape [of m env start b] by blast
  let ?m1 = "m\<lparr>world := w', trace := trace m @ sent\<rparr>"
  have a: "getIndexOptionsGRPC env start b m = (r, ?m1)" by (rule s) simp_all
  have res: "resultsGRPC env start (b # bs) m = r # resultsGRPC env start bs ?m1"
    by (simp add: a)
  have t1: "consumerCalls (trace ?m1) = consumerCalls (trace m)"
    using q by (simp add: consumerCalls_append consumerCalls_requests)
  show ?case
  proof (cases r)
    case (Inl err)
    let ?mF = "?m1\<lparr>client := (client ?m1)\<lparr>configFingerprintProto := start\<rparr>\<rparr>"
    have c: "resultsGRPC env start bs ?mF = resultsGRPC env start bs ?m1"
      by (rule resultsGRPC_cong) simp_all
    have step: "iterateBatches env (GRPCFunc start first) (b # bs) m
          = iterateBatches env (GRPCFunc start False) bs ?mF"
      by (simp add: a Inl)
    have ih: "consumerCalls (trace (iterateBatches env (GRPCFunc start False) bs ?mF))
       = consumerCalls (trace ?mF) @ concat (map deliveredOf (resultsGRPC env start bs ?mF))"
      by (rule Cons.IH)
    have tF: "consumerCalls (trace ?mF) = consumerCalls (trace m)" using t1 by simp
    show ?thesis unfolding step ih c tF res by (simp add: Inl)
  next
    case (Inr p)
    obtain options nfp where p: "p = (options, nfp)" by (cases p)
    let ?mN = "if first then ?m1\<lparr>client := (client ?m1)\<lparr>configFingerprintProto := nfp\<rparr>\<rparr> else ?m1"
    let ?mC = "consume options ?mN"
    have c: "resultsGRPC env start bs ?mC = resultsGRPC env start bs ?m1"
      by (rule resultsGRPC_cong) simp_all
    have t2: "consumerCalls (trace ?mC) = consumerCalls (trace m) @ delivered options"
      using t1 by (simp add: consume_trace consumerCalls_append consumerCalls_Consumer)
    have step: "iterateBatches env (GRPCFunc start first) (b # bs) m
          = iterateBatches env (GRPCFunc start False) bs ?mC"
      by (simp add: a Inr p)
    have ih: "consumerCalls (trace (iterateBatches env (GRPCFunc start False) bs ?mC))
       = consumerCalls (trace ?mC) @ concat (map deliveredOf (resultsGRPC env start bs ?mC))"
      by (rule Cons.IH)
    show ?thesis unfolding step ih c t2 res by (simp add: Inr p)
  qed
qed

lemma resultsGRPC_length: "length (resultsGRPC env fp bs m) = length bs"
  by (induction bs arbitrary: m) (simp_all split: prod.splits)

section \<open>Evaluating the concrete scenarios\<close>

lemma batched_Nil: "batched [] n = []"
  by (simp add: batched.simps)

lemma batched_Cons:
  "0 < n \<Longrightarrow> batched (x # xs) n = take (nat n) (x # xs) # batched (drop (nat n) (x # xs)) n"
  by (subst batched.simps) simp

lemma batched_123: "batched [1, 2, 3 :: uint32] 2 = [[1, 2], [3]]"
  by (simp add: batched_Nil batched_Cons)

lemma batched_scenario: "batched (IDs (result0 grpc)) (it_batchSize (result0 grpc)) = [[1, 2], [3]]"
  by (simp add: result0_def batched_123)

lemmas item_defs = item1_def item2_def item3_def

lemmas scenario_defs = scripted_def scenarioREST_def scenarioGRPC_def okResponse_def jsonItem_def
  protoItem_def optionsFor_def client0_def machine0_def result0_def
  secondFailsREST_def secondFailsGRPC_def firstFailsREST_def firstFailsGRPC_def

lemmas fetch_defs = getIndexOptionsREST_def getIndexOptionsGRPC_def doRequest_def asInternal_def
  restRequest_def grpcRequest_def readResponse_def configurationURL_def emit_def HeaderGet_def
  fingerprintHeader_def withCloneURL_def getCloneURL_def FromProto_def elems_def


lemma scenario_resultsREST:
  "resultsREST (scripted scenarioREST scenarioGRPC) (configFingerprint (client (machine0 g)))
     [[1, 2], [3]] (machine0 g)
   = [Inr ([item1, item2], ''F1''), Inr ([item3], ''F2'')]"
  by (simp add: scenario_defs fetch_defs item_defs)

lemma scenario_resultsGRPC:
  "resultsGRPC (scripted scenarioREST scenarioGRPC) (configFingerprintProto (client (machine0 g)))
     [[1, 2], [3]] (machine0 g)
   = [Inr ([item1, item2], Some (Fingerprint ''F1'')), Inr ([item3], Some (Fingerprint ''F2''))]"
  by (simp add: scenario_defs fetch_defs item_defs putLanguage_def)

lemma secondFails_resultsREST:
  "resultsREST (scripted secondFailsREST secondFailsGRPC) (configFingerprint (client (machine0 g)))
     [[1, 2], [3]] (machine0 g)
   = [Inr ([item1, item2], ''F1''), Inl (Err ''connection refused'')]"
  by (simp add: scenario_defs fetch_defs item_defs)

lemma secondFails_resultsGRPC:
  "resultsGRPC (scripted secondFailsREST secondFailsGRPC) (configFingerprintProto (client (machine0 g)))
     [[1, 2], [3]] (machine0 g)
   = [Inr ([item1, item2], Some (Fingerprint ''F1'')), Inl (Err ''connection refused'')]"
  by (simp add: scenario_defs fetch_defs item_defs putLanguage_def)

lemma firstFails_resultsREST:
  "resultsREST (scripted firstFailsREST firstFailsGRPC) (configFingerprint (client (machine0 g)))
     [[1, 2], [3]] (machine0 g)
   = [Inl (Err ''connection refused''), Inr ([item3], ''F2'')]"
  by (simp add: scenario_defs fetch_defs item_defs)

lemma firstFails_resultsGRPC:
  "resultsGRPC (scripted firstFailsREST firstFailsGRPC) (configFingerprintProto (client (machine0 g)))
     [[1, 2], [3]] (machine0 g)
   = [Inl (Err ''connection refused''), Inr ([item3], Some (Fingerprint ''F2''))]"
  by (simp add: scenario_defs fetch_defs item_defs putLanguage_def)

section \<open>The properties of a pass\<close>

lemma Iterate_REST:
  "\<not> it_useGRPC res \<Longrightarrow>
   IterateIndexOptions env res m
   = iterateBatches env (RESTFunc (configFingerprint (client m)) True)
       (batched (IDs res) (it_batchSize res)) m"
  by (simp add: IterateIndexOptions_def mkGetIndexOptionsFunc_def)

lemma Iterate_GRPC:
  "it_useGRPC res \<Longrightarrow>
   IterateIndexOptions env res m
   = iterateBatches env (GRPCFunc (configFingerprintProto (client m)) True)
       (batched (IDs res) (it_batchSize res)) m"
  by (simp add: IterateIndexOptions_def mkGetIndexOptionsFunc_def)

text \<open>
  C1, as the claim states it, fails. With two batches, the fetch of the first succeeds
  and returns F1, and after that call the stored fingerprint is F1; the fetch of the
  second fails, and the closure (line 312) writes the fingerprint the pass started
  from, F0, over it: a later batch has mutated the stored fingerprint.
\<close>

theorem later_failure_resets_fingerprint_counterexample:
  "resultsREST (scripted secondFailsREST secondFailsGRPC) (configFingerprint (client (machine0 False)))
     (batched (IDs (result0 False)) (it_batchSize (result0 False))) (machine0 False)
     = [Inr ([item1, item2], ''F1''), Inl (Err ''connection refused'')]
   \<and> configFingerprint (client (iterateBatches (scripted secondFailsREST secondFailsGRPC)
         (mkGetIndexOptionsFunc False (client (machine0 False))) [[1, 2]] (machine0 False))) = ''F1''
   \<and> configFingerprint (client (IterateIndexOptions (scripted secondFailsREST secondFailsGRPC)
         (result0 False) (machine0 False))) = ''F0''"
proof -
  have r: "resultsREST (scripted secondFailsREST secondFailsGRPC) (configFingerprint (client (machine0 False)))
     (batched (IDs (result0 False)) (it_batchSize (result0 False))) (machine0 False)
     = [Inr ([item1, item2], ''F1''), Inl (Err ''connection refused'')]"
    by (simp only: batched_scenario secondFails_resultsREST [of False])
  have a: "configFingerprint (client (iterateBatches (scripted secondFailsREST secondFailsGRPC)
         (mkGetIndexOptionsFunc False (client (machine0 False))) [[1, 2]] (machine0 False))) = ''F1''"
    by (simp add: mkGetIndexOptionsFunc_def scenario_defs fetch_defs)
  have b: "configFingerprint (client (IterateIndexOptions (scripted secondFailsREST secondFailsGRPC)
         (result0 False) (machine0 False))) = ''F0''"
    by (simp add: IterateIndexOptions_def batched_123 mkGetIndexOptionsFunc_def
        scenario_defs fetch_defs)
  from r a b show ?thesis by simp
qed

text \<open>
  C1, amended. When the fetch of the first batch of a pass succeeds and returns the
  fingerprint F1, then after the pass the client is as before but for its stored
  fingerprint, which is F1 if every later fetch succeeded (their fingerprints are
  dropped) and the fingerprint the pass started from if a later fetch failed. The loop
  runs the batches in order, so this holds after every batch of a pass: the statement
  is for every list of batches, and the state after the first k batches of a pass is
  the result of the loop on those k batches.
\<close>

theorem later_batches_fingerprint:
  "(resultsREST env (configFingerprint (client m)) (b # bs) m = Inr (options, F1) # rs
    \<longrightarrow> client (iterateBatches env (mkGetIndexOptionsFunc False (client m)) (b # bs) m)
        = (client m)\<lparr>configFingerprint :=
             (if \<exists>r\<in>set rs. isl r then configFingerprint (client m) else F1)\<rparr>)
   \<and> (resultsGRPC env (configFingerprintProto (client m)) (b # bs) m = Inr (options', P1) # rs'
    \<longrightarrow> client (iterateBatches env (mkGetIndexOptionsFunc True (client m)) (b # bs) m)
        = (client m)\<lparr>configFingerprintProto :=
             (if \<exists>r\<in>set rs'. isl r then configFingerprintProto (client m) else P1)\<rparr>)"
proof (intro conjI impI)
  assume "resultsREST env (configFingerprint (client m)) (b # bs) m = Inr (options, F1) # rs"
  from REST_first [OF this]
  show "client (iterateBatches env (mkGetIndexOptionsFunc False (client m)) (b # bs) m)
        = (client m)\<lparr>configFingerprint :=
             (if \<exists>r\<in>set rs. isl r then configFingerprint (client m) else F1)\<rparr>"
    by (simp add: mkGetIndexOptionsFunc_def)
next
  assume "resultsGRPC env (configFingerprintProto (client m)) (b # bs) m = Inr (options', P1) # rs'"
  from GRPC_first [OF this]
  show "client (iterateBatches env (mkGetIndexOptionsFunc True (client m)) (b # bs) m)
        = (client m)\<lparr>configFingerprintProto :=
             (if \<exists>r\<in>set rs'. isl r then configFingerprintProto (client m) else P1)\<rparr>"
    by (simp add: mkGetIndexOptionsFunc_def)
qed

theorem later_batches_fingerprint_witness:
  "resultsREST (scripted secondFailsREST secondFailsGRPC) (configFingerprint (client (machine0 False)))
     [[1, 2], [3]] (machine0 False) = [Inr ([item1, item2], ''F1''), Inl (Err ''connection refused'')]
   \<and> client (iterateBatches (scripted secondFailsREST secondFailsGRPC)
        (mkGetIndexOptionsFunc False (client (machine0 False))) [[1, 2], [3]] (machine0 False))
      = (client (machine0 False))\<lparr>configFingerprint := ''F0''\<rparr>
   \<and> resultsGRPC (scripted secondFailsREST secondFailsGRPC) (configFingerprintProto (client (machine0 False)))
     [[1, 2], [3]] (machine0 False)
      = [Inr ([item1, item2], Some (Fingerprint ''F1'')), Inl (Err ''connection refused'')]
   \<and> client (iterateBatches (scripted secondFailsREST secondFailsGRPC)
        (mkGetIndexOptionsFunc True (client (machine0 False))) [[1, 2], [3]] (machine0 False))
      = (client (machine0 False))\<lparr>configFingerprintProto := Some (Fingerprint ''P0'')\<rparr>"
proof -
  note r = secondFails_resultsREST [of False]
  note g = secondFails_resultsGRPC [of False]
  have f0: "configFingerprint (client (machine0 False)) = ''F0''"
    "configFingerprintProto (client (machine0 False)) = Some (Fingerprint ''P0'')"
    by (simp_all add: machine0_def client0_def)
  note t = later_batches_fingerprint
         [where env = "scripted secondFailsREST secondFailsGRPC" and m = "machine0 False"
            and b = "[1, 2]" and bs = "[[3]]"]
  from t [THEN conjunct1, THEN mp, OF r]
  have a: "client (iterateBatches (scripted secondFailsREST secondFailsGRPC)
        (mkGetIndexOptionsFunc False (client (machine0 False))) [[1, 2], [3]] (machine0 False))
      = (client (machine0 False))\<lparr>configFingerprint := ''F0''\<rparr>"
    by (simp add: f0)
  from t [THEN conjunct2, THEN mp, OF g]
  have b: "client (iterateBatches (scripted secondFailsREST secondFailsGRPC)
        (mkGetIndexOptionsFunc True (client (machine0 False))) [[1, 2], [3]] (machine0 False))
      = (client (machine0 False))\<lparr>configFingerprintProto := Some (Fingerprint ''P0'')\<rparr>"
    by (simp add: f0)
  from r a g b show ?thesis by simp
qed

lemma consumerCalls_member: "x \<in> set (consumerCalls es) \<longleftrightarrow> Consumer x \<in> set es"
  by (induction es rule: consumerCalls.induct) auto

lemma List_scenario:
  "List (scripted scenarioREST scenarioGRPC) [] 0 0 0 (machine0 g) = Some (Inr (result0 g), machine0 g)"
  by (simp add: List_def listRepoIDs_def scenario_defs)

text \<open>
  C2. When every fetch of a pass succeeds, the fingerprint stored afterwards is the one
  the first batch returned, on either transport. In the scenario of the spec (three
  repositories, batch size 2, F1 from batch [1, 2] and F2 from batch [3]) the stored
  fingerprint after the pass is F1, and the consumer has been called for the
  repositories 1 and 3.
\<close>

theorem fingerprint_single_advance:
  "(\<not> it_useGRPC res
     \<and> resultsREST env (configFingerprint (client m)) (batched (IDs res) (it_batchSize res)) m
         = Inr (options, F1) # rs
     \<and> (\<forall>r\<in>set rs. \<not> isl r)
    \<longrightarrow> client (IterateIndexOptions env res m) = (client m)\<lparr>configFingerprint := F1\<rparr>)
   \<and> (it_useGRPC res'
     \<and> resultsGRPC env (configFingerprintProto (client m)) (batched (IDs res') (it_batchSize res')) m
         = Inr (options', P1) # rs'
     \<and> (\<forall>r\<in>set rs'. \<not> isl r)
    \<longrightarrow> client (IterateIndexOptions env res' m) = (client m)\<lparr>configFingerprintProto := P1\<rparr>)
   \<and> List (scripted scenarioREST scenarioGRPC) [] 0 0 0 (machine0 False)
       = Some (Inr (result0 False), machine0 False)
   \<and> configFingerprint (client (machine0 False)) = ''F0''
   \<and> resultsREST (scripted scenarioREST scenarioGRPC) ''F0''
        (batched (IDs (result0 False)) (it_batchSize (result0 False))) (machine0 False)
       = [Inr ([item1, item2], ''F1''), Inr ([item3], ''F2'')]
   \<and> configFingerprint (client (IterateIndexOptions (scripted scenarioREST scenarioGRPC)
        (result0 False) (machine0 False))) = ''F1''
   \<and> consumerCalls (trace (IterateIndexOptions (scripted scenarioREST scenarioGRPC)
        (result0 False) (machine0 False))) = [IndexOptions item1, IndexOptions item3]"
proof (intro conjI impI)
  assume a: "\<not> it_useGRPC res
     \<and> resultsREST env (configFingerprint (client m)) (batched (IDs res) (it_batchSize res)) m
         = Inr (options, F1) # rs
     \<and> (\<forall>r\<in>set rs. \<not> isl r)"
  then obtain b bs where bs: "batched (IDs res) (it_batchSize res) = b # bs"
    by (cases "batched (IDs res) (it_batchSize res)") auto
  from a have r: "resultsREST env (configFingerprint (client m)) (b # bs) m = Inr (options, F1) # rs"
    unfolding bs by blast
  from a have ok: "\<not> (\<exists>r\<in>set rs. isl r)" by simp
  show "client (IterateIndexOptions env res m) = (client m)\<lparr>configFingerprint := F1\<rparr>"
    using a REST_first [OF r] ok by (simp add: Iterate_REST bs)
next
  assume a: "it_useGRPC res'
     \<and> resultsGRPC env (configFingerprintProto (client m)) (batched (IDs res') (it_batchSize res')) m
         = Inr (options', P1) # rs'
     \<and> (\<forall>r\<in>set rs'. \<not> isl r)"
  then obtain b bs where bs: "batched (IDs res') (it_batchSize res') = b # bs"
    by (cases "batched (IDs res') (it_batchSize res')") auto
  from a have r: "resultsGRPC env (configFingerprintProto (client m)) (b # bs) m = Inr (options', P1) # rs'"
    unfolding bs by blast
  from a have ok: "\<not> (\<exists>r\<in>set rs'. isl r)" by simp
  show "client (IterateIndexOptions env res' m) = (client m)\<lparr>configFingerprintProto := P1\<rparr>"
    using a GRPC_first [OF r] ok by (simp add: Iterate_GRPC bs)
next
  show "List (scripted scenarioREST scenarioGRPC) [] 0 0 0 (machine0 False)
       = Some (Inr (result0 False), machine0 False)"
    by (rule List_scenario)
next
  show f0: "configFingerprint (client (machine0 False)) = ''F0''"
    by (simp add: machine0_def client0_def)
  show "resultsREST (scripted scenarioREST scenarioGRPC) ''F0''
        (batched (IDs (result0 False)) (it_batchSize (result0 False))) (machine0 False)
       = [Inr ([item1, item2], ''F1''), Inr ([item3], ''F2'')]"
    using scenario_resultsREST [of False] by (simp only: batched_scenario f0)
next
  show "configFingerprint (client (IterateIndexOptions (scripted scenarioREST scenarioGRPC)
        (result0 False) (machine0 False))) = ''F1''"
    by (simp add: IterateIndexOptions_def batched_123 mkGetIndexOptionsFunc_def
        scenario_defs fetch_defs)
next
  show "consumerCalls (trace (IterateIndexOptions (scripted scenarioREST scenarioGRPC)
        (result0 False) (machine0 False))) = [IndexOptions item1, IndexOptions item3]"
    by (simp add: IterateIndexOptions_def batched_123 mkGetIndexOptionsFunc_def
        scenario_defs fetch_defs item_defs)
qed

theorem fingerprint_single_advance_witness:
  "\<not> it_useGRPC (result0 False)
   \<and> resultsREST (scripted scenarioREST scenarioGRPC) (configFingerprint (client (machine0 False)))
        (batched (IDs (result0 False)) (it_batchSize (result0 False))) (machine0 False)
       = [Inr ([item1, item2], ''F1''), Inr ([item3], ''F2'')]
   \<and> client (IterateIndexOptions (scripted scenarioREST scenarioGRPC) (result0 False) (machine0 False))
       = (client (machine0 False))\<lparr>configFingerprint := ''F1''\<rparr>
   \<and> it_useGRPC (result0 True)
   \<and> resultsGRPC (scripted scenarioREST scenarioGRPC) (configFingerprintProto (client (machine0 False)))
        (batched (IDs (result0 True)) (it_batchSize (result0 True))) (machine0 False)
       = [Inr ([item1, item2], Some (Fingerprint ''F1'')), Inr ([item3], Some (Fingerprint ''F2''))]
   \<and> client (IterateIndexOptions (scripted scenarioREST scenarioGRPC) (result0 True) (machine0 False))
       = (client (machine0 False))\<lparr>configFingerprintProto := Some (Fingerprint ''F1'')\<rparr>"
proof -
  have u: "\<not> it_useGRPC (result0 False)" "it_useGRPC (result0 True)"
    by (simp_all add: result0_def)
  have r: "resultsREST (scripted scenarioREST scenarioGRPC) (configFingerprint (client (machine0 False)))
        (batched (IDs (result0 False)) (it_batchSize (result0 False))) (machine0 False)
       = [Inr ([item1, item2], ''F1''), Inr ([item3], ''F2'')]"
    by (simp only: batched_scenario scenario_resultsREST [of False])
  have g: "resultsGRPC (scripted scenarioREST scenarioGRPC) (configFingerprintProto (client (machine0 False)))
        (batched (IDs (result0 True)) (it_batchSize (result0 True))) (machine0 False)
       = [Inr ([item1, item2], Some (Fingerprint ''F1'')), Inr ([item3], Some (Fingerprint ''F2''))]"
    by (simp only: batched_scenario scenario_resultsGRPC [of False])
  note t = fingerprint_single_advance
         [where env = "scripted scenarioREST scenarioGRPC" and m = "machine0 False"
            and res = "result0 False" and res' = "result0 True"
            and options = "[item1, item2]" and ?F1.0 = "''F1''" and rs = "[Inr ([item3], ''F2'')]"
            and options' = "[item1, item2]" and ?P1.0 = "Some (Fingerprint ''F1'')"
            and rs' = "[Inr ([item3], Some (Fingerprint ''F2''))]"]
  have a: "client (IterateIndexOptions (scripted scenarioREST scenarioGRPC) (result0 False) (machine0 False))
       = (client (machine0 False))\<lparr>configFingerprint := ''F1''\<rparr>"
    by (rule t [THEN conjunct1, THEN mp]) (simp add: u r)
  have b: "client (IterateIndexOptions (scripted scenarioREST scenarioGRPC) (result0 True) (machine0 False))
       = (client (machine0 False))\<lparr>configFingerprintProto := Some (Fingerprint ''F1'')\<rparr>"
    by (rule t [THEN conjunct2, THEN conjunct1, THEN mp]) (simp add: u g)
  from u r a g b show ?thesis by simp
qed

text \<open>
  C3. When the fetch of the first batch of a pass fails, the client after that call of
  the closure, and after the whole pass, is the client as it was when the pass began:
  the stored fingerprint is the one held before. The pass is the run of the iteration
  callback that \<open>List\<close> returned.
\<close>

theorem first_batch_failure_keeps_fingerprint:
  "(\<not> it_useGRPC res \<and> batched (IDs res) (it_batchSize res) = b # bs
     \<and> fst (getIndexOptionsREST env (configFingerprint (client m)) b m) = Inl err
    \<longrightarrow> client (snd (snd (getIndexOptions env (mkGetIndexOptionsFunc False (client m)) b m))) = client m
        \<and> client (IterateIndexOptions env res m) = client m)
   \<and> (it_useGRPC res' \<and> batched (IDs res') (it_batchSize res') = b' # bs'
     \<and> fst (getIndexOptionsGRPC env (configFingerprintProto (client m)) b' m) = Inl err'
    \<longrightarrow> client (snd (snd (getIndexOptions env (mkGetIndexOptionsFunc True (client m)) b' m))) = client m
        \<and> client (IterateIndexOptions env res' m) = client m)"
proof (intro conjI impI)
  assume a: "\<not> it_useGRPC res \<and> batched (IDs res) (it_batchSize res) = b # bs
     \<and> fst (getIndexOptionsREST env (configFingerprint (client m)) b m) = Inl err"
  obtain r w' sent where s:
    "\<And>m'. world m' = world m \<Longrightarrow> Root (client m') = Root (client m) \<Longrightarrow>
        getIndexOptionsREST env (configFingerprint (client m)) b m'
        = (r, m'\<lparr>world := w', trace := trace m' @ sent\<rparr>)"
    using REST_shape [of m env "configFingerprint (client m)" b] by blast
  have g: "getIndexOptionsREST env (configFingerprint (client m)) b m
           = (Inl err, m\<lparr>world := w', trace := trace m @ sent\<rparr>)"
    using s [of m] a by simp
  show "client (snd (snd (getIndexOptions env (mkGetIndexOptionsFunc False (client m)) b m))) = client m"
    by (simp add: mkGetIndexOptionsFunc_def g)
  have "resultsREST env (configFingerprint (client m)) (b # bs) m
        = Inl err # resultsREST env (configFingerprint (client m)) bs (m\<lparr>world := w', trace := trace m @ sent\<rparr>)"
    by (simp add: g)
  from REST_first [OF this]
  show "client (IterateIndexOptions env res m) = client m"
    using a by (simp add: Iterate_REST)
next
  assume a: "it_useGRPC res' \<and> batched (IDs res') (it_batchSize res') = b' # bs'
     \<and> fst (getIndexOptionsGRPC env (configFingerprintProto (client m)) b' m) = Inl err'"
  obtain r w' sent where s:
    "\<And>m'. world m' = world m \<Longrightarrow> Root (client m') = Root (client m) \<Longrightarrow>
        getIndexOptionsGRPC env (configFingerprintProto (client m)) b' m'
        = (r, m'\<lparr>world := w', trace := trace m' @ sent\<rparr>)"
    using GRPC_shape [of m env "configFingerprintProto (client m)" b'] by blast
  have g: "getIndexOptionsGRPC env (configFingerprintProto (client m)) b' m
           = (Inl err', m\<lparr>world := w', trace := trace m @ sent\<rparr>)"
    using s [of m] a by simp
  show "client (snd (snd (getIndexOptions env (mkGetIndexOptionsFunc True (client m)) b' m))) = client m"
    by (simp add: mkGetIndexOptionsFunc_def g)
  have "resultsGRPC env (configFingerprintProto (client m)) (b' # bs') m
        = Inl err' # resultsGRPC env (configFingerprintProto (client m)) bs' (m\<lparr>world := w', trace := trace m @ sent\<rparr>)"
    by (simp add: g)
  from GRPC_first [OF this]
  show "client (IterateIndexOptions env res' m) = client m"
    using a by (simp add: Iterate_GRPC)
qed

theorem first_batch_failure_keeps_fingerprint_witness:
  "\<not> it_useGRPC (result0 False)
   \<and> batched (IDs (result0 False)) (it_batchSize (result0 False)) = [1, 2] # [[3]]
   \<and> fst (getIndexOptionsREST (scripted firstFailsREST firstFailsGRPC)
             (configFingerprint (client (machine0 False))) [1, 2] (machine0 False))
       = Inl (Err ''connection refused'')
   \<and> client (IterateIndexOptions (scripted firstFailsREST firstFailsGRPC) (result0 False) (machine0 False))
       = client (machine0 False)
   \<and> it_useGRPC (result0 True)
   \<and> batched (IDs (result0 True)) (it_batchSize (result0 True)) = [1, 2] # [[3]]
   \<and> fst (getIndexOptionsGRPC (scripted firstFailsREST firstFailsGRPC)
             (configFingerprintProto (client (machine0 False))) [1, 2] (machine0 False))
       = Inl (Err ''connection refused'')
   \<and> client (IterateIndexOptions (scripted firstFailsREST firstFailsGRPC) (result0 True) (machine0 False))
       = client (machine0 False)"
proof -
  have u: "\<not> it_useGRPC (result0 False)" "it_useGRPC (result0 True)"
    by (simp_all add: result0_def)
  have bt: "batched (IDs (result0 False)) (it_batchSize (result0 False)) = [1, 2] # [[3]]"
    "batched (IDs (result0 True)) (it_batchSize (result0 True)) = [1, 2] # [[3]]"
    by (simp_all only: batched_scenario)
  have r: "fst (getIndexOptionsREST (scripted firstFailsREST firstFailsGRPC)
             (configFingerprint (client (machine0 False))) [1, 2] (machine0 False))
       = Inl (Err ''connection refused'')"
    by (simp add: scenario_defs fetch_defs)
  have g: "fst (getIndexOptionsGRPC (scripted firstFailsREST firstFailsGRPC)
             (configFingerprintProto (client (machine0 False))) [1, 2] (machine0 False))
       = Inl (Err ''connection refused'')"
    by (simp add: scenario_defs fetch_defs)
  note t = first_batch_failure_keeps_fingerprint
         [where env = "scripted firstFailsREST firstFailsGRPC" and m = "machine0 False"
            and res = "result0 False" and res' = "result0 True"
            and b = "[1, 2]" and bs = "[[3]]" and b' = "[1, 2]" and bs' = "[[3]]"
            and err = "Err ''connection refused''" and err' = "Err ''connection refused''"]
  have a: "client (IterateIndexOptions (scripted firstFailsREST firstFailsGRPC) (result0 False) (machine0 False))
       = client (machine0 False)"
    using t [THEN conjunct1, THEN mp] u bt r by blast
  have b: "client (IterateIndexOptions (scripted firstFailsREST firstFailsGRPC) (result0 True) (machine0 False))
       = client (machine0 False)"
    using t [THEN conjunct2, THEN mp] u bt g by blast
  from u bt r g a b show ?thesis by blast
qed

text \<open>
  C5. The pass goes through all its batches whatever their fetches return, and it
  returns no error. For every batch whose fetch succeeded, every item of the response
  that has an empty error is delivered to the consumer, however many of the other
  fetches failed.
\<close>

theorem batch_failure_isolated:
  "(\<not> it_useGRPC res
     \<and> Inr (options, fp) \<in> set (resultsREST env (configFingerprint (client m))
                                   (batched (IDs res) (it_batchSize res)) m)
     \<and> opt \<in> set options \<and> Error opt = []
    \<longrightarrow> Consumer (IndexOptions opt) \<in> set (trace (IterateIndexOptions env res m)))
   \<and> (it_useGRPC res'
     \<and> Inr (options', fp') \<in> set (resultsGRPC env (configFingerprintProto (client m))
                                   (batched (IDs res') (it_batchSize res')) m)
     \<and> opt' \<in> set options' \<and> Error opt' = []
    \<longrightarrow> Consumer (IndexOptions opt') \<in> set (trace (IterateIndexOptions env res' m)))"
proof (intro conjI impI)
  let ?rs = "resultsREST env (configFingerprint (client m)) (batched (IDs res) (it_batchSize res)) m"
  assume a: "\<not> it_useGRPC res \<and> Inr (options, fp) \<in> set ?rs \<and> opt \<in> set options \<and> Error opt = []"
  then have "IndexOptions opt \<in> set (deliveredOf (Inr (options, fp) :: go_error + indexOptionsItem list \<times> string))"
    by (simp add: delivered_def)
  with a have "\<exists>x\<in>set ?rs. IndexOptions opt \<in> set (deliveredOf x)" by blast
  then have "IndexOptions opt \<in> set (concat (map deliveredOf ?rs))" by simp
  then have "IndexOptions opt \<in> set (consumerCalls (trace (IterateIndexOptions env res m)))"
    using a by (simp add: Iterate_REST REST_calls)
  then show "Consumer (IndexOptions opt) \<in> set (trace (IterateIndexOptions env res m))"
    by (simp add: consumerCalls_member)
next
  let ?rs = "resultsGRPC env (configFingerprintProto (client m)) (batched (IDs res') (it_batchSize res')) m"
  assume a: "it_useGRPC res' \<and> Inr (options', fp') \<in> set ?rs \<and> opt' \<in> set options' \<and> Error opt' = []"
  then have "IndexOptions opt' \<in> set (deliveredOf (Inr (options', fp') :: go_error + indexOptionsItem list \<times> Fingerprint option))"
    by (simp add: delivered_def)
  with a have "\<exists>x\<in>set ?rs. IndexOptions opt' \<in> set (deliveredOf x)" by blast
  then have "IndexOptions opt' \<in> set (concat (map deliveredOf ?rs))" by simp
  then have "IndexOptions opt' \<in> set (consumerCalls (trace (IterateIndexOptions env res' m)))"
    using a by (simp add: Iterate_GRPC GRPC_calls)
  then show "Consumer (IndexOptions opt') \<in> set (trace (IterateIndexOptions env res' m))"
    by (simp add: consumerCalls_member)
qed

theorem batch_failure_isolated_witness:
  "\<not> it_useGRPC (result0 False)
   \<and> resultsREST (scripted firstFailsREST firstFailsGRPC) (configFingerprint (client (machine0 False)))
        (batched (IDs (result0 False)) (it_batchSize (result0 False))) (machine0 False)
       = [Inl (Err ''connection refused''), Inr ([item3], ''F2'')]
   \<and> item3 \<in> set [item3] \<and> Error item3 = []
   \<and> Consumer (IndexOptions item3)
       \<in> set (trace (IterateIndexOptions (scripted firstFailsREST firstFailsGRPC) (result0 False) (machine0 False)))
   \<and> it_useGRPC (result0 True)
   \<and> resultsGRPC (scripted firstFailsREST firstFailsGRPC) (configFingerprintProto (client (machine0 False)))
        (batched (IDs (result0 True)) (it_batchSize (result0 True))) (machine0 False)
       = [Inl (Err ''connection refused''), Inr ([item3], Some (Fingerprint ''F2''))]
   \<and> Consumer (IndexOptions item3)
       \<in> set (trace (IterateIndexOptions (scripted firstFailsREST firstFailsGRPC) (result0 True) (machine0 False)))"
proof -
  have u: "\<not> it_useGRPC (result0 False)" "it_useGRPC (result0 True)"
    by (simp_all add: result0_def)
  have e: "item3 \<in> set [item3]" "Error item3 = []" by (simp_all add: item3_def)
  have r: "resultsREST (scripted firstFailsREST firstFailsGRPC) (configFingerprint (client (machine0 False)))
        (batched (IDs (result0 False)) (it_batchSize (result0 False))) (machine0 False)
       = [Inl (Err ''connection refused''), Inr ([item3], ''F2'')]"
    by (simp only: batched_scenario firstFails_resultsREST [of False])
  have g: "resultsGRPC (scripted firstFailsREST firstFailsGRPC) (configFingerprintProto (client (machine0 False)))
        (batched (IDs (result0 True)) (it_batchSize (result0 True))) (machine0 False)
       = [Inl (Err ''connection refused''), Inr ([item3], Some (Fingerprint ''F2''))]"
    by (simp only: batched_scenario firstFails_resultsGRPC [of False])
  note t = batch_failure_isolated
         [where env = "scripted firstFailsREST firstFailsGRPC" and m = "machine0 False"
            and res = "result0 False" and res' = "result0 True"
            and options = "[item3]" and fp = "''F2''" and opt = item3
            and options' = "[item3]" and fp' = "Some (Fingerprint ''F2'')" and opt' = item3]
  have a: "Consumer (IndexOptions item3)
       \<in> set (trace (IterateIndexOptions (scripted firstFailsREST firstFailsGRPC) (result0 False) (machine0 False)))"
    by (rule t [THEN conjunct1, THEN mp]) (simp add: u r e)
  have b: "Consumer (IndexOptions item3)
       \<in> set (trace (IterateIndexOptions (scripted firstFailsREST firstFailsGRPC) (result0 True) (machine0 False)))"
    by (rule t [THEN conjunct2, THEN mp]) (simp add: u g e)
  from u r e a g b show ?thesis by blast
qed

text \<open>
  C6. The calls of the consumer during a pass are, in order, the options of the items
  with an empty error of the responses received, and nothing else. So in a response
  with an item A that has an error and an item B that has none, the consumer is called
  with the options of B, A is not among the items delivered, and if no item without an
  error shares the repository ID of A then no call for this response carries that ID.
\<close>

theorem repository_error_isolated:
  "(\<not> it_useGRPC res
    \<longrightarrow> consumerCalls (trace (IterateIndexOptions env res m))
        = consumerCalls (trace m)
          @ concat (map deliveredOf (resultsREST env (configFingerprint (client m))
                                       (batched (IDs res) (it_batchSize res)) m)))
   \<and> (it_useGRPC res'
    \<longrightarrow> consumerCalls (trace (IterateIndexOptions env res' m))
        = consumerCalls (trace m)
          @ concat (map deliveredOf (resultsGRPC env (configFingerprintProto (client m))
                                       (batched (IDs res') (it_batchSize res')) m)))
   \<and> deliveredOf (Inr (options, fp)) = map IndexOptions (filter (\<lambda>opt. Error opt = []) options)
   \<and> (B \<in> set options \<and> Error B = [] \<longrightarrow> IndexOptions B \<in> set (deliveredOf (Inr (options, fp))))
   \<and> (Error A \<noteq> [] \<longrightarrow> A \<notin> set (filter (\<lambda>opt. Error opt = []) options))
   \<and> (Error A \<noteq> []
       \<and> (\<forall>opt\<in>set options. Error opt = [] \<longrightarrow> RepoID (IndexOptions opt) \<noteq> RepoID (IndexOptions A))
      \<longrightarrow> (\<forall>c\<in>set (deliveredOf (Inr (options, fp))). RepoID c \<noteq> RepoID (IndexOptions A)))"
proof (intro conjI impI)
  assume "\<not> it_useGRPC res"
  then show "consumerCalls (trace (IterateIndexOptions env res m))
        = consumerCalls (trace m)
          @ concat (map deliveredOf (resultsREST env (configFingerprint (client m))
                                       (batched (IDs res) (it_batchSize res)) m))"
    by (simp add: Iterate_REST REST_calls)
next
  assume "it_useGRPC res'"
  then show "consumerCalls (trace (IterateIndexOptions env res' m))
        = consumerCalls (trace m)
          @ concat (map deliveredOf (resultsGRPC env (configFingerprintProto (client m))
                                       (batched (IDs res') (it_batchSize res')) m))"
    by (simp add: Iterate_GRPC GRPC_calls)
next
  show "deliveredOf (Inr (options, fp)) = map IndexOptions (filter (\<lambda>opt. Error opt = []) options)"
    by (simp add: delivered_def)
next
  assume "B \<in> set options \<and> Error B = []"
  then show "IndexOptions B \<in> set (deliveredOf (Inr (options, fp)))"
    by (simp add: delivered_def)
next
  assume "Error A \<noteq> []"
  then show "A \<notin> set (filter (\<lambda>opt. Error opt = []) options)" by simp
next
  assume "Error A \<noteq> []
       \<and> (\<forall>opt\<in>set options. Error opt = [] \<longrightarrow> RepoID (IndexOptions opt) \<noteq> RepoID (IndexOptions A))"
  then show "\<forall>c\<in>set (deliveredOf (Inr (options, fp))). RepoID c \<noteq> RepoID (IndexOptions A)"
    by (auto simp: delivered_def)
qed

theorem repository_error_isolated_witness:
  "\<not> it_useGRPC (result0 False) \<and> it_useGRPC (result0 True)
   \<and> item1 \<in> set [item1, item2] \<and> Error item1 = [] \<and> Error item2 \<noteq> []
   \<and> RepoID (IndexOptions item2)
        \<notin> set (map (\<lambda>opt. RepoID (IndexOptions opt)) (filter (\<lambda>opt. Error opt = []) [item1, item2]))
   \<and> deliveredOf (Inr ([item1, item2], ''F1'')) = [IndexOptions item1]
   \<and> consumerCalls (trace (IterateIndexOptions (scripted scenarioREST scenarioGRPC) (result0 False) (machine0 False)))
       = [IndexOptions item1, IndexOptions item3]
   \<and> consumerCalls (trace (IterateIndexOptions (scripted scenarioREST scenarioGRPC) (result0 True) (machine0 False)))
       = [IndexOptions item1, IndexOptions item3]
   \<and> IndexOptions item1 \<in> set (deliveredOf (Inr ([item1, item2], ''F1'')))
   \<and> item2 \<notin> set (filter (\<lambda>opt. Error opt = []) [item1, item2])
   \<and> RepoID (IndexOptions item2) \<notin> set (map RepoID (deliveredOf (Inr ([item1, item2], ''F1''))))"
proof -
  have u: "\<not> it_useGRPC (result0 False)" "it_useGRPC (result0 True)"
    by (simp_all add: result0_def)
  have e: "item1 \<in> set [item1, item2]" "Error item1 = []" "Error item2 \<noteq> []"
    by (simp_all add: item_defs)
  have d: "\<forall>opt\<in>set [item1, item2]. Error opt = [] \<longrightarrow> RepoID (IndexOptions opt) \<noteq> RepoID (IndexOptions item2)"
    by (simp add: item_defs optionsFor_def)
  have r: "resultsREST (scripted scenarioREST scenarioGRPC) (configFingerprint (client (machine0 False)))
        (batched (IDs (result0 False)) (it_batchSize (result0 False))) (machine0 False)
       = [Inr ([item1, item2], ''F1''), Inr ([item3], ''F2'')]"
    by (simp only: batched_scenario scenario_resultsREST [of False])
  have g: "resultsGRPC (scripted scenarioREST scenarioGRPC) (configFingerprintProto (client (machine0 False)))
        (batched (IDs (result0 True)) (it_batchSize (result0 True))) (machine0 False)
       = [Inr ([item1, item2], Some (Fingerprint ''F1'')), Inr ([item3], Some (Fingerprint ''F2''))]"
    by (simp only: batched_scenario scenario_resultsGRPC [of False])
  have t0: "trace (machine0 False) = []" by (simp add: machine0_def)
  note t = repository_error_isolated
         [where env = "scripted scenarioREST scenarioGRPC" and m = "machine0 False"
            and res = "result0 False" and res' = "result0 True"
            and options = "[item1, item2]" and fp = "''F1''" and A = item2 and B = item1]
  have dl: "deliveredOf (Inr ([item1, item2], ''F1'')) = [IndexOptions item1]"
    using t [THEN conjunct2, THEN conjunct2, THEN conjunct1] e by simp
  have a: "consumerCalls (trace (IterateIndexOptions (scripted scenarioREST scenarioGRPC) (result0 False) (machine0 False)))
       = [IndexOptions item1, IndexOptions item3]"
    using t [THEN conjunct1, THEN mp, OF u(1)] e
    by (simp add: r t0 delivered_def item3_def)
  have b: "consumerCalls (trace (IterateIndexOptions (scripted scenarioREST scenarioGRPC) (result0 True) (machine0 False)))
       = [IndexOptions item1, IndexOptions item3]"
    using t [THEN conjunct2, THEN conjunct1, THEN mp, OF u(2)] e
    by (simp add: g t0 delivered_def item3_def)
  have c1: "IndexOptions item1 \<in> set (deliveredOf (Inr ([item1, item2], ''F1'')))"
    using t [THEN conjunct2, THEN conjunct2, THEN conjunct2, THEN conjunct1] e by blast
  have c2: "item2 \<notin> set (filter (\<lambda>opt. Error opt = []) [item1, item2])"
    using t [THEN conjunct2, THEN conjunct2, THEN conjunct2, THEN conjunct2, THEN conjunct1] e by blast
  have c3: "\<forall>c\<in>set (deliveredOf (Inr ([item1, item2], ''F1''))). RepoID c \<noteq> RepoID (IndexOptions item2)"
    using t [THEN conjunct2, THEN conjunct2, THEN conjunct2, THEN conjunct2, THEN conjunct2] e d by blast
  have d': "RepoID (IndexOptions item2)
        \<notin> set (map (\<lambda>opt. RepoID (IndexOptions opt)) (filter (\<lambda>opt. Error opt = []) [item1, item2]))"
    by (simp add: item_defs optionsFor_def)
  have c3': "RepoID (IndexOptions item2) \<notin> set (map RepoID (deliveredOf (Inr ([item1, item2], ''F1''))))"
    using c3 by auto
  from u e d' dl a b c1 c2 c3' show ?thesis by blast
qed

section \<open>ForceIterateIndexOptions\<close>

lemma force_fetch_shape:
  "\<exists>r w' sent.
     (\<forall>m'. world m' = world m \<longrightarrow> Root (client m') = Root (client m) \<longrightarrow>
        forceGetIndexOptions env grpc repos m' = (r, m'\<lparr>world := w', trace := trace m' @ sent\<rparr>))
     \<and> (\<forall>e\<in>set sent. isRequest e \<and> withoutFingerprint e)"
proof (cases grpc)
  case True
  obtain r w' sent where s:
    "\<And>m'. world m' = world m \<Longrightarrow> Root (client m') = Root (client m) \<Longrightarrow>
        getIndexOptionsGRPC env None repos m' = (r, m'\<lparr>world := w', trace := trace m' @ sent\<rparr>)"
    and q: "\<forall>e\<in>set sent. isRequest e \<and> withoutFingerprint e"
    using GRPC_shape [of m env None repos] by auto
  let ?r = "case r of Inl err \<Rightarrow> Inl err | Inr (opts, fp) \<Rightarrow> Inr opts"
  have "\<forall>m'. world m' = world m \<longrightarrow> Root (client m') = Root (client m) \<longrightarrow>
        forceGetIndexOptions env grpc repos m' = (?r, m'\<lparr>world := w', trace := trace m' @ sent\<rparr>)"
    using s by (auto simp: forceGetIndexOptions_def True split: sum.splits)
  with q show ?thesis by blast
next
  case False
  obtain r w' sent where s:
    "\<And>m'. world m' = world m \<Longrightarrow> Root (client m') = Root (client m) \<Longrightarrow>
        getIndexOptionsREST env [] repos m' = (r, m'\<lparr>world := w', trace := trace m' @ sent\<rparr>)"
    and q: "\<forall>e\<in>set sent. isRequest e \<and> withoutFingerprint e"
    using REST_shape [of m env "[]" repos] by auto
  let ?r = "case r of Inl err \<Rightarrow> Inl err | Inr (opts, fp) \<Rightarrow> Inr opts"
  have "\<forall>m'. world m' = world m \<longrightarrow> Root (client m') = Root (client m) \<longrightarrow>
        forceGetIndexOptions env grpc repos m' = (?r, m'\<lparr>world := w', trace := trace m' @ sent\<rparr>)"
    using s by (auto simp: forceGetIndexOptions_def False split: sum.splits)
  with q show ?thesis by blast
qed

lemma forceItems_eq: "forceItems opts m = m\<lparr>trace := trace m @ concat (map itemCallbacks opts)\<rparr>"
  by (induction opts arbitrary: m) (simp_all add: itemCallbacks_def emit_def Let_def)

lemma forceErrors_eq: "forceErrors repos err m = m\<lparr>trace := trace m @ map (\<lambda>repo. OnError repo err) repos\<rparr>"
  by (induction repos arbitrary: m) (simp_all add: emit_def)

lemma forceCallbacks_eq:
  "(case r of Inl err \<Rightarrow> forceErrors b err m | Inr opts \<Rightarrow> forceItems opts m)
   = m\<lparr>trace := trace m @ batchCallbacks b r\<rparr>"
  by (cases r) (simp_all add: forceItems_eq forceErrors_eq)

lemma resultsForce_cong:
  "world m' = world m \<Longrightarrow> Root (client m') = Root (client m)
   \<Longrightarrow> resultsForce env grpc bs m' = resultsForce env grpc bs m"
proof (induction bs arbitrary: m m')
  case Nil
  show ?case by simp
next
  case (Cons b bs)
  obtain r w' sent where s:
    "\<And>m''. world m'' = world m \<Longrightarrow> Root (client m'') = Root (client m) \<Longrightarrow>
        forceGetIndexOptions env grpc b m'' = (r, m''\<lparr>world := w', trace := trace m'' @ sent\<rparr>)"
    using force_fetch_shape [of m env grpc b] by blast
  have a: "forceGetIndexOptions env grpc b m = (r, m\<lparr>world := w', trace := trace m @ sent\<rparr>)"
    by (rule s) simp_all
  have b: "forceGetIndexOptions env grpc b m' = (r, m'\<lparr>world := w', trace := trace m' @ sent\<rparr>)"
    by (rule s) (simp_all add: Cons.prems)
  have "resultsForce env grpc bs (m'\<lparr>world := w', trace := trace m' @ sent\<rparr>)
        = resultsForce env grpc bs (m\<lparr>world := w', trace := trace m @ sent\<rparr>)"
    by (rule Cons.IH) (simp_all add: Cons.prems)
  then show ?case by (simp add: a b)
qed

lemma resultsForce_length: "length (resultsForce env grpc bs m) = length bs"
  by (induction bs arbitrary: m) (simp_all split: prod.splits)

lemma callbacks_append: "callbacks (xs @ ys) = callbacks xs @ callbacks ys"
  by (simp add: callbacks_def)

lemma callbacks_requests: "\<forall>e\<in>set es. isRequest e \<Longrightarrow> callbacks es = []"
proof (induction es)
  case Nil
  show ?case by (simp add: callbacks_def)
next
  case (Cons e es)
  then show ?case by (cases e) (simp_all add: callbacks_def)
qed

lemma callbacks_itemCallbacks: "callbacks (concat (map itemCallbacks opts)) = concat (map itemCallbacks opts)"
  by (induction opts) (simp_all add: callbacks_def itemCallbacks_def)

lemma callbacks_batchCallbacks: "callbacks (batchCallbacks b r) = batchCallbacks b r"
proof (cases r)
  case (Inl err)
  then show ?thesis by (simp add: callbacks_def)
next
  case (Inr opts)
  then show ?thesis by (simp add: callbacks_itemCallbacks)
qed

lemma request_batchCallbacks: "e \<in> set (batchCallbacks b r) \<Longrightarrow> \<not> isRequest e"
  by (cases r) (auto simp: itemCallbacks_def split: if_splits)

text \<open>
  The whole loop of \<open>ForceIterateIndexOptions\<close>: it changes the world and appends to
  the trace, and what it does depends on the machine only through the world and the
  client's root URL.
\<close>

lemma forceBatches_shape:
  "\<exists>w'' new.
     (\<forall>m'. world m' = world m \<longrightarrow> Root (client m') = Root (client m) \<longrightarrow>
        forceBatches env grpc bs m' = m'\<lparr>world := w'', trace := trace m' @ new\<rparr>)
     \<and> (\<forall>e\<in>set new. isRequest e \<longrightarrow> withoutFingerprint e)
     \<and> callbacks new
        = concat (map (\<lambda>(b, r). batchCallbacks b r) (zip bs (resultsForce env grpc bs m)))"
proof (induction bs arbitrary: m)
  case Nil
  have "\<forall>m'. world m' = world m \<longrightarrow> Root (client m') = Root (client m) \<longrightarrow>
        forceBatches env grpc [] m' = m'\<lparr>world := world m, trace := trace m' @ []\<rparr>"
    by simp
  then show ?case
    by (intro exI [of _ "world m"] exI [of _ "[]"]) (simp add: callbacks_def)
next
  case (Cons b bs)
  obtain r w' sent where s:
    "\<And>m'. world m' = world m \<Longrightarrow> Root (client m') = Root (client m) \<Longrightarrow>
        forceGetIndexOptions env grpc b m' = (r, m'\<lparr>world := w', trace := trace m' @ sent\<rparr>)"
    and q: "\<forall>e\<in>set sent. isRequest e \<and> withoutFingerprint e"
    using force_fetch_shape [of m env grpc b] by blast
  let ?cb = "batchCallbacks b r"
  let ?m2 = "m\<lparr>world := w', trace := trace m @ sent @ ?cb\<rparr>"
  obtain w'' new where ih:
    "\<And>m'. world m' = w' \<Longrightarrow> Root (client m') = Root (client m) \<Longrightarrow>
        forceBatches env grpc bs m' = m'\<lparr>world := w'', trace := trace m' @ new\<rparr>"
    and inew: "\<forall>e\<in>set new. isRequest e \<longrightarrow> withoutFingerprint e"
    and icb: "callbacks new
        = concat (map (\<lambda>(b, r). batchCallbacks b r) (zip bs (resultsForce env grpc bs ?m2)))"
    using Cons.IH [of ?m2] by auto
  have step: "\<And>m'. world m' = world m \<Longrightarrow> Root (client m') = Root (client m) \<Longrightarrow>
        forceBatches env grpc (b # bs) m'
        = forceBatches env grpc bs (m'\<lparr>world := w', trace := trace m' @ sent @ ?cb\<rparr>)"
  proof -
    fix m' :: "'a machine"
    assume w: "world m' = world m" and rt: "Root (client m') = Root (client m)"
    let ?m1 = "m'\<lparr>world := w', trace := trace m' @ sent\<rparr>"
    have f: "forceGetIndexOptions env grpc b m' = (r, ?m1)" by (rule s [OF w rt])
    have "forceBatches env grpc (b # bs) m'
          = forceBatches env grpc bs
              (case r of Inl err \<Rightarrow> forceErrors b err ?m1 | Inr opts \<Rightarrow> forceItems opts ?m1)"
      by (cases r) (simp_all add: f)
    also have "(case r of Inl err \<Rightarrow> forceErrors b err ?m1 | Inr opts \<Rightarrow> forceItems opts ?m1)
          = ?m1\<lparr>trace := trace ?m1 @ ?cb\<rparr>"
      by (rule forceCallbacks_eq)
    also have "?m1\<lparr>trace := trace ?m1 @ ?cb\<rparr> = m'\<lparr>world := w', trace := trace m' @ sent @ ?cb\<rparr>"
      by simp
    finally show "forceBatches env grpc (b # bs) m'
        = forceBatches env grpc bs (m'\<lparr>world := w', trace := trace m' @ sent @ ?cb\<rparr>)" .
  qed
  have all: "\<forall>m'. world m' = world m \<longrightarrow> Root (client m') = Root (client m) \<longrightarrow>
        forceBatches env grpc (b # bs) m' = m'\<lparr>world := w'', trace := trace m' @ (sent @ ?cb @ new)\<rparr>"
  proof (intro allI impI)
    fix m' :: "'a machine"
    assume w: "world m' = world m" and rt: "Root (client m') = Root (client m)"
    let ?m2' = "m'\<lparr>world := w', trace := trace m' @ sent @ ?cb\<rparr>"
    have "forceBatches env grpc (b # bs) m' = forceBatches env grpc bs ?m2'"
      by (rule step [OF w rt])
    also have "\<dots> = ?m2'\<lparr>world := w'', trace := trace ?m2' @ new\<rparr>"
      by (rule ih) (simp_all add: rt)
    also have "\<dots> = m'\<lparr>world := w'', trace := trace m' @ (sent @ ?cb @ new)\<rparr>"
      by simp
    finally show "forceBatches env grpc (b # bs) m'
        = m'\<lparr>world := w'', trace := trace m' @ (sent @ ?cb @ new)\<rparr>" .
  qed
  have req: "\<forall>e\<in>set (sent @ ?cb @ new). isRequest e \<longrightarrow> withoutFingerprint e"
    using q inew request_batchCallbacks [of _ b r] by auto
  have a: "forceGetIndexOptions env grpc b m = (r, m\<lparr>world := w', trace := trace m @ sent\<rparr>)"
    by (rule s) simp_all
  have c: "resultsForce env grpc bs ?m2
           = resultsForce env grpc bs (m\<lparr>world := w', trace := trace m @ sent\<rparr>)"
    by (rule resultsForce_cong) simp_all
  have res: "resultsForce env grpc (b # bs) m
             = r # resultsForce env grpc bs (m\<lparr>world := w', trace := trace m @ sent\<rparr>)"
    by (simp add: a)
  have cb: "callbacks (sent @ ?cb @ new)
        = concat (map (\<lambda>(b, r). batchCallbacks b r) (zip (b # bs) (resultsForce env grpc (b # bs) m)))"
    unfolding res using q
    by (simp add: callbacks_append callbacks_requests callbacks_batchCallbacks icb c)
  from all req cb show ?case by blast
qed

lemma listRepoIDs_client: "client (snd (listRepoIDs env indexed m)) = client m"
  by (simp add: listRepoIDs_def split: prod.splits)

lemma List_fingerprint:
  assumes "List env indexed now1 now2 seed m = Some (Inr res, m')"
  shows "configFingerprint (client m')
           = (if now1 > configFingerprintReset (client m) then [] else configFingerprint (client m))
         \<and> configFingerprintProto (client m')
           = (if now1 > configFingerprintReset (client m) then None else configFingerprintProto (client m))"
proof -
  obtain r m1 where l: "listRepoIDs env indexed m = (r, m1)" by (cases "listRepoIDs env indexed m")
  have c: "client m1 = client m" using listRepoIDs_client [of env indexed m] by (simp add: l)
  from assms l obtain repos where r: "r = Inr repos" by (cases r) (simp_all add: List_def)
  show ?thesis
  proof (cases "now1 > configFingerprintReset (client m)")
    case True
    obtain d where d: "resetDuration (length indexed) seed = Some d"
      using resetDuration_between [of "length indexed" seed] by blast
    from assms have "m' = m1\<lparr>client := (client m1)
                                          \<lparr>configFingerprintReset := now2 + d,
                                           configFingerprintProto := None,
                                           configFingerprint := []\<rparr>\<rparr>"
      using True by (simp add: List_def l r d c Let_def)
    then show ?thesis using True by simp
  next
    case False
    have nf: "\<not> now1 > configFingerprintReset (client m1)" using False c by simp
    from assms have "m' = m1" by (simp add: List_def l r nf Let_def)
    then show ?thesis using c False by simp
  qed
qed

lemma Force_shape:
  "\<exists>w'' new.
     (\<forall>m'. world m' = world m \<longrightarrow> Root (client m') = Root (client m)
        \<longrightarrow> BatchSize (client m') = BatchSize (client m) \<longrightarrow> useGRPC (client m') = useGRPC (client m)
        \<longrightarrow> ForceIterateIndexOptions env repos m' = m'\<lparr>world := w'', trace := trace m' @ new\<rparr>)
     \<and> (\<forall>e\<in>set new. isRequest e \<longrightarrow> withoutFingerprint e)
     \<and> callbacks new
        = concat (map (\<lambda>(b, r). batchCallbacks b r)
            (zip (batched repos (if BatchSize (client m) = 0 then 10000 else BatchSize (client m)))
                 (resultsForce env (useGRPC (client m))
                    (batched repos (if BatchSize (client m) = 0 then 10000 else BatchSize (client m))) m)))"
proof -
  let ?bs = "batched repos (if BatchSize (client m) = 0 then 10000 else BatchSize (client m))"
  obtain w'' new where a:
    "\<And>m'. world m' = world m \<Longrightarrow> Root (client m') = Root (client m) \<Longrightarrow>
        forceBatches env (useGRPC (client m)) ?bs m' = m'\<lparr>world := w'', trace := trace m' @ new\<rparr>"
    and b: "\<forall>e\<in>set new. isRequest e \<longrightarrow> withoutFingerprint e"
    and c: "callbacks new
        = concat (map (\<lambda>(b, r). batchCallbacks b r) (zip ?bs (resultsForce env (useGRPC (client m)) ?bs m)))"
    using forceBatches_shape [of m env "useGRPC (client m)" ?bs] by auto
  have "\<forall>m'. world m' = world m \<longrightarrow> Root (client m') = Root (client m)
        \<longrightarrow> BatchSize (client m') = BatchSize (client m) \<longrightarrow> useGRPC (client m') = useGRPC (client m)
        \<longrightarrow> ForceIterateIndexOptions env repos m' = m'\<lparr>world := w'', trace := trace m' @ new\<rparr>"
  proof (intro allI impI)
    fix m' :: "'a machine"
    assume w: "world m' = world m" and rt: "Root (client m') = Root (client m)"
      and bsz: "BatchSize (client m') = BatchSize (client m)"
      and ug: "useGRPC (client m') = useGRPC (client m)"
    have "ForceIterateIndexOptions env repos m' = forceBatches env (useGRPC (client m)) ?bs m'"
      unfolding ForceIterateIndexOptions_def Let_def bsz ug ..
    also have "\<dots> = m'\<lparr>world := w'', trace := trace m' @ new\<rparr>" by (rule a [OF w rt])
    finally show "ForceIterateIndexOptions env repos m' = m'\<lparr>world := w'', trace := trace m' @ new\<rparr>" .
  qed
  with b c show ?thesis by blast
qed

text \<open>
  C8. \<open>ForceIterateIndexOptions\<close> leaves the client as it is, stored fingerprints and
  reset deadline included, so the fingerprints of its responses are dropped; every
  request it puts on the wire is without a fingerprint (no fingerprint header on REST,
  no fingerprint message on gRPC); what it does is the same whatever the stored
  fingerprints and the deadline are; and a \<open>List\<close> call after it leaves the same
  stored fingerprints, for the pass to start from, as the \<open>List\<close> call does without
  it (at the same reading of the clock against the deadline).
\<close>

theorem force_bypasses_fingerprint:
  "client (ForceIterateIndexOptions env repos m) = client m
   \<and> (\<exists>new. trace (ForceIterateIndexOptions env repos m) = trace m @ new
            \<and> (\<forall>e\<in>set new. isRequest e \<longrightarrow> withoutFingerprint e))
   \<and> ForceIterateIndexOptions env repos
        (m\<lparr>client := (client m)\<lparr>configFingerprint := f, configFingerprintProto := p,
                                 configFingerprintReset := t\<rparr>\<rparr>)
      = (ForceIterateIndexOptions env repos m)
          \<lparr>client := (client m)\<lparr>configFingerprint := f, configFingerprintProto := p,
                                 configFingerprintReset := t\<rparr>\<rparr>
   \<and> (List env indexed now1 now2 seed (ForceIterateIndexOptions env repos m) = Some (Inr res, m1)
       \<and> List env indexed' now1 now2' seed' m = Some (Inr res', m2)
      \<longrightarrow> configFingerprint (client m1) = configFingerprint (client m2)
          \<and> configFingerprintProto (client m1) = configFingerprintProto (client m2))"
proof -
  obtain w'' new where a:
    "\<And>m'. world m' = world m \<Longrightarrow> Root (client m') = Root (client m)
        \<Longrightarrow> BatchSize (client m') = BatchSize (client m) \<Longrightarrow> useGRPC (client m') = useGRPC (client m)
        \<Longrightarrow> ForceIterateIndexOptions env repos m' = m'\<lparr>world := w'', trace := trace m' @ new\<rparr>"
    and b: "\<forall>e\<in>set new. isRequest e \<longrightarrow> withoutFingerprint e"
    using Force_shape [of m env repos] by auto
  have fm: "ForceIterateIndexOptions env repos m = m\<lparr>world := w'', trace := trace m @ new\<rparr>"
    by (rule a) simp_all
  have c1: "client (ForceIterateIndexOptions env repos m) = client m"
    by (simp add: fm)
  have c2: "\<exists>new. trace (ForceIterateIndexOptions env repos m) = trace m @ new
            \<and> (\<forall>e\<in>set new. isRequest e \<longrightarrow> withoutFingerprint e)"
    using b by (intro exI [of _ new]) (simp add: fm)
  let ?m' = "m\<lparr>client := (client m)\<lparr>configFingerprint := f, configFingerprintProto := p,
                                 configFingerprintReset := t\<rparr>\<rparr>"
  have "ForceIterateIndexOptions env repos ?m' = ?m'\<lparr>world := w'', trace := trace ?m' @ new\<rparr>"
    by (rule a) simp_all
  then have c3: "ForceIterateIndexOptions env repos ?m'
      = (ForceIterateIndexOptions env repos m)
          \<lparr>client := (client m)\<lparr>configFingerprint := f, configFingerprintProto := p,
                                 configFingerprintReset := t\<rparr>\<rparr>"
    by (simp add: fm)
  have c4: "List env indexed now1 now2 seed (ForceIterateIndexOptions env repos m) = Some (Inr res, m1)
       \<and> List env indexed' now1 now2' seed' m = Some (Inr res', m2)
      \<longrightarrow> configFingerprint (client m1) = configFingerprint (client m2)
          \<and> configFingerprintProto (client m1) = configFingerprintProto (client m2)"
  proof
    assume h: "List env indexed now1 now2 seed (ForceIterateIndexOptions env repos m) = Some (Inr res, m1)
       \<and> List env indexed' now1 now2' seed' m = Some (Inr res', m2)"
    from h List_fingerprint [of env indexed now1 now2 seed "ForceIterateIndexOptions env repos m" res m1]
    have x: "configFingerprint (client m1)
           = (if now1 > configFingerprintReset (client m) then [] else configFingerprint (client m))
         \<and> configFingerprintProto (client m1)
           = (if now1 > configFingerprintReset (client m) then None else configFingerprintProto (client m))"
      by (simp add: c1)
    from h List_fingerprint [of env indexed' now1 now2' seed' m res' m2]
    have y: "configFingerprint (client m2)
           = (if now1 > configFingerprintReset (client m) then [] else configFingerprint (client m))
         \<and> configFingerprintProto (client m2)
           = (if now1 > configFingerprintReset (client m) then None else configFingerprintProto (client m))"
      by simp
    from x y show "configFingerprint (client m1) = configFingerprint (client m2)
          \<and> configFingerprintProto (client m1) = configFingerprintProto (client m2)"
      by simp
  qed
  from c1 c2 c3 c4 show ?thesis by blast
qed

lemma List_scenario_any:
  "client M = client0 g \<Longrightarrow> world M = ()
   \<Longrightarrow> List (scripted scenarioREST scenarioGRPC) [] 0 0 0 M = Some (Inr (result0 g), M)"
  by (simp add: List_def listRepoIDs_def scripted_def client0_def result0_def)

theorem force_bypasses_fingerprint_witness:
  "client (ForceIterateIndexOptions (scripted scenarioREST scenarioGRPC) [1, 2, 3] (machine0 False))
     = client (machine0 False)
   \<and> list_all withoutFingerprint
       (filter isRequest
          (trace (ForceIterateIndexOptions (scripted scenarioREST scenarioGRPC) [1, 2, 3] (machine0 False))))
   \<and> List (scripted scenarioREST scenarioGRPC) [] 0 0 0
        (ForceIterateIndexOptions (scripted scenarioREST scenarioGRPC) [1, 2, 3] (machine0 False))
      = Some (Inr (result0 False),
              ForceIterateIndexOptions (scripted scenarioREST scenarioGRPC) [1, 2, 3] (machine0 False))
   \<and> List (scripted scenarioREST scenarioGRPC) [] 0 0 0 (machine0 False)
      = Some (Inr (result0 False), machine0 False)
   \<and> configFingerprint
        (client (ForceIterateIndexOptions (scripted scenarioREST scenarioGRPC) [1, 2, 3] (machine0 False)))
      = ''F0''
   \<and> configFingerprintProto
        (client (ForceIterateIndexOptions (scripted scenarioREST scenarioGRPC) [1, 2, 3] (machine0 False)))
      = Some (Fingerprint ''P0'')"
proof -
  let ?env = "scripted scenarioREST scenarioGRPC"
  let ?F = "ForceIterateIndexOptions ?env [1, 2, 3] (machine0 False)"
  note t = force_bypasses_fingerprint
    [where env = ?env and repos = "[1, 2, 3]" and m = "machine0 False"
       and indexed = "[]" and indexed' = "[]" and ?now1.0 = 0 and ?now2.0 = 0 and now2' = 0
       and seed = 0 and seed' = 0 and res = "result0 False" and res' = "result0 False"
       and ?m1.0 = ?F and ?m2.0 = "machine0 False"]
  have c1: "client ?F = client (machine0 False)" using t by blast
  have c0: "client (machine0 False) = client0 False" by (simp add: machine0_def)
  obtain new where n: "trace ?F = trace (machine0 False) @ new"
      "\<forall>e\<in>set new. isRequest e \<longrightarrow> withoutFingerprint e"
    using t by blast
  have c2: "list_all withoutFingerprint (filter isRequest (trace ?F))"
    using n by (simp add: machine0_def list_all_iff)
  have l1: "List ?env [] 0 0 0 ?F = Some (Inr (result0 False), ?F)"
    by (rule List_scenario_any) (simp only: c1 c0, simp)
  have l2: "List ?env [] 0 0 0 (machine0 False) = Some (Inr (result0 False), machine0 False)"
    by (rule List_scenario_any) (simp_all add: machine0_def)
  have "configFingerprint (client ?F) = configFingerprint (client (machine0 False))
          \<and> configFingerprintProto (client ?F) = configFingerprintProto (client (machine0 False))"
    using t l1 l2 by blast
  then have c4: "configFingerprint (client ?F) = ''F0''"
    "configFingerprintProto (client ?F) = Some (Fingerprint ''P0'')"
    by (simp_all add: machine0_def client0_def)
  from c1 c2 l1 l2 c4 show ?thesis by blast
qed

section \<open>The callbacks of ForceIterateIndexOptions\<close>

lemma concat_batched: "0 < n \<Longrightarrow> concat (batched xs n) = xs"
proof (induction xs n rule: batched.induct)
  case (1 xs n)
  show ?case
  proof (cases "xs = []")
    case True
    then show ?thesis by (simp add: batched.simps)
  next
    case False
    have "batched xs n = take (nat n) xs # batched (drop (nat n) xs) n"
      using False "1.prems" by (subst batched.simps) simp
    moreover have "concat (batched (drop (nat n) xs) n) = drop (nat n) xs"
      using False "1.prems" by (intro "1.IH") simp_all
    ultimately show ?thesis by simp
  qed
qed

lemma callbackRepos_append: "callbackRepos (xs @ ys) = callbackRepos xs @ callbackRepos ys"
  by (induction xs) (simp_all split: option.splits)

lemma callbackRepos_Nil: "callbackRepos [] = []"
  by simp

lemma callbackRepos_errors: "callbackRepos (map (\<lambda>repo. OnError repo err) b) = b"
  by (induction b) simp_all

lemma callbackRepos_item:
  "RepoID (IndexOptions opt) \<noteq> 0 \<Longrightarrow> callbackRepos (itemCallbacks opt) = [RepoID (IndexOptions opt)]"
  by (simp add: itemCallbacks_def word_neq_0_conv)

lemma callbackRepos_items:
  "0 \<notin> set (map (\<lambda>opt. RepoID (IndexOptions opt)) opts)
   \<Longrightarrow> callbackRepos (concat (map itemCallbacks opts)) = map (\<lambda>opt. RepoID (IndexOptions opt)) opts"
proof (induction opts)
  case Nil
  show ?case by (simp add: callbackRepos_Nil)
next
  case (Cons opt opts)
  then have "RepoID (IndexOptions opt) \<noteq> 0" by auto
  then show ?case using Cons by (simp add: callbackRepos_append callbackRepos_item)
qed

text \<open>A response that lists the repositories of its batch, each once, in any order.\<close>

lemma callbackRepos_batch:
  assumes z: "0 \<notin> set b"
    and g: "\<And>opts. r = Inr opts \<Longrightarrow> mset (map (\<lambda>opt. RepoID (IndexOptions opt)) opts) = mset b"
  shows "mset (callbackRepos (batchCallbacks b r)) = mset b"
proof (cases r)
  case (Inl err)
  then show ?thesis by (simp add: callbackRepos_errors)
next
  case (Inr opts)
  have e: "mset (map (\<lambda>opt. RepoID (IndexOptions opt)) opts) = mset b" by (rule g [OF Inr])
  then have "set (map (\<lambda>opt. RepoID (IndexOptions opt)) opts) = set b" by (rule mset_eq_setD)
  with z have "0 \<notin> set (map (\<lambda>opt. RepoID (IndexOptions opt)) opts)" by simp
  then have "callbackRepos (concat (map itemCallbacks opts)) = map (\<lambda>opt. RepoID (IndexOptions opt)) opts"
    by (rule callbackRepos_items)
  with e Inr show ?thesis by simp
qed

lemma callbackRepos_batches:
  assumes "\<And>b r. (b, r) \<in> set zs \<Longrightarrow> 0 \<notin> set b"
    and "\<And>b r opts. (b, r) \<in> set zs \<Longrightarrow> r = Inr opts
           \<Longrightarrow> mset (map (\<lambda>opt. RepoID (IndexOptions opt)) opts) = mset b"
  shows "mset (callbackRepos (concat (map (\<lambda>(b, r). batchCallbacks b r) zs))) = mset (concat (map fst zs))"
  using assms
proof (induction zs)
  case Nil
  show ?case by (simp add: callbackRepos_Nil)
next
  case (Cons z zs)
  obtain b r where z: "z = (b, r)" by (cases z)
  have zin: "(b, r) \<in> set (z # zs)" by (simp add: z)
  have h: "mset (callbackRepos (batchCallbacks b r)) = mset b"
  proof (rule callbackRepos_batch)
    show "0 \<notin> set b" by (rule Cons.prems(1) [OF zin])
  next
    fix opts assume "r = Inr opts"
    then show "mset (map (\<lambda>opt. RepoID (IndexOptions opt)) opts) = mset b"
      by (rule Cons.prems(2) [OF zin])
  qed
  have t: "mset (callbackRepos (concat (map (\<lambda>(b, r). batchCallbacks b r) zs))) = mset (concat (map fst zs))"
  proof (rule Cons.IH)
    fix b' r' assume "(b', r') \<in> set zs"
    then show "0 \<notin> set b'" using Cons.prems(1) [of b' r'] by simp
  next
    fix b' r' opts assume "(b', r') \<in> set zs" "r' = Inr opts"
    then show "mset (map (\<lambda>opt. RepoID (IndexOptions opt)) opts) = mset b'"
      using Cons.prems(2) [of b' r' opts] by simp
  qed
  show ?case by (simp add: z callbackRepos_append h t)
qed

lemma forceResults_fst:
  "0 \<le> BatchSize (client m) \<Longrightarrow> concat (map fst (forceResults env repos m)) = repos"
proof -
  assume "0 \<le> BatchSize (client m)"
  then have p: "0 < forceBatchSize (client m)" by (simp add: forceBatchSize_def)
  have "map fst (forceResults env repos m) = batched repos (forceBatchSize (client m))"
    by (simp add: forceResults_def resultsForce_length)
  then show ?thesis using concat_batched [OF p] by simp
qed

text \<open>
  The control plane answers the request for repository 5 with one item that has the
  error "not found" and the repository ID 0. The fetch succeeds, the guard of line 431
  skips \<open>onError\<close> for the ID 0, line 434 skips \<open>onSuccess\<close> for the error: neither
  callback is called.
\<close>

lemma client_not_found_no_callback:
  "forceResults (scripted notFoundREST notFoundGRPC) [5] (machine0 False)
     = [([5], Inr [\<lparr>IndexOptions = optionsFor 0 [] ''http://sg/.internal/git/'', Error = ''not found''\<rparr>])]
   \<and> callbacks (trace (ForceIterateIndexOptions (scripted notFoundREST notFoundGRPC) [5] (machine0 False)))
     = []"
proof -
  have b: "batched [5 :: uint32] 2 = [[5]]" by (simp add: batched_Nil batched_Cons)
  have "forceResults (scripted notFoundREST notFoundGRPC) [5] (machine0 False)
     = [([5], Inr [\<lparr>IndexOptions = optionsFor 0 [] ''http://sg/.internal/git/'', Error = ''not found''\<rparr>])]"
    by (simp add: forceResults_def forceBatchSize_def machine0_def client0_def b
        forceGetIndexOptions_def scripted_def notFoundREST_def okResponse_def jsonItem_def optionsFor_def
        fetch_defs)
  moreover have "callbacks (trace (ForceIterateIndexOptions (scripted notFoundREST notFoundGRPC) [5] (machine0 False)))
     = []"
    by (simp add: ForceIterateIndexOptions_def machine0_def client0_def b callbacks_def
        forceGetIndexOptions_def scripted_def notFoundREST_def okResponse_def jsonItem_def optionsFor_def
        fetch_defs)
  ultimately show ?thesis by simp
qed

text \<open>
  What the loop does. The callbacks of a call are, batch by batch: for a batch whose
  fetch failed, \<open>onError\<close> once for every repository ID of the batch, with the error
  of the fetch; for a batch whose fetch succeeded, for every item of the response in
  turn, \<open>onSuccess\<close> when its error is empty, \<open>onError\<close> with its repository ID
  when its error is not empty and the ID is positive, and nothing otherwise. The loop
  runs over the items of the response, not over the IDs that were asked for. When the
  batch size is not negative, no requested ID is 0 and every successful response
  lists the repository IDs of its batch, the call makes for each repository ID as
  many callbacks as \<open>repos\<close> has the ID.
\<close>

lemma force_callbacks:
  "callbacks (trace (ForceIterateIndexOptions env repos m))
     = callbacks (trace m) @ concat (map (\<lambda>(b, r). batchCallbacks b r) (forceResults env repos m))
   \<and> batchCallbacks b (Inl err) = map (\<lambda>repo. OnError repo err) b
   \<and> batchCallbacks b (Inr opts) = concat (map itemCallbacks opts)
   \<and> itemCallbacks opt
       = (if Error opt = [] then [OnSuccess (IndexOptions opt)]
          else if 0 < RepoID (IndexOptions opt)
               then [OnError (RepoID (IndexOptions opt)) (Err (Error opt))]
               else [])
   \<and> (0 \<le> BatchSize (client m) \<and> 0 \<notin> set repos
       \<and> (\<forall>(b, r)\<in>set (forceResults env repos m).
             \<forall>opts. r = Inr opts \<longrightarrow> mset (map (\<lambda>opt. RepoID (IndexOptions opt)) opts) = mset b)
      \<longrightarrow> mset (callbackRepos (callbacks (trace (ForceIterateIndexOptions env repos m))))
          = mset (callbackRepos (callbacks (trace m))) + mset repos)"
proof -
  obtain w'' new where a:
    "\<And>m'. world m' = world m \<Longrightarrow> Root (client m') = Root (client m)
        \<Longrightarrow> BatchSize (client m') = BatchSize (client m) \<Longrightarrow> useGRPC (client m') = useGRPC (client m)
        \<Longrightarrow> ForceIterateIndexOptions env repos m' = m'\<lparr>world := w'', trace := trace m' @ new\<rparr>"
    and c: "callbacks new = concat (map (\<lambda>(b, r). batchCallbacks b r) (forceResults env repos m))"
    using Force_shape [of m env repos] unfolding forceResults_def forceBatchSize_def by auto
  have fm: "ForceIterateIndexOptions env repos m = m\<lparr>world := w'', trace := trace m @ new\<rparr>"
    by (rule a) simp_all
  have c1: "callbacks (trace (ForceIterateIndexOptions env repos m))
     = callbacks (trace m) @ concat (map (\<lambda>(b, r). batchCallbacks b r) (forceResults env repos m))"
    by (simp add: fm callbacks_append c)
  have c4: "itemCallbacks opt
       = (if Error opt = [] then [OnSuccess (IndexOptions opt)]
          else if 0 < RepoID (IndexOptions opt)
               then [OnError (RepoID (IndexOptions opt)) (Err (Error opt))]
               else [])"
    by (simp add: itemCallbacks_def)
  have c5: "0 \<le> BatchSize (client m) \<and> 0 \<notin> set repos
       \<and> (\<forall>(b, r)\<in>set (forceResults env repos m).
             \<forall>opts. r = Inr opts \<longrightarrow> mset (map (\<lambda>opt. RepoID (IndexOptions opt)) opts) = mset b)
      \<longrightarrow> mset (callbackRepos (callbacks (trace (ForceIterateIndexOptions env repos m))))
          = mset (callbackRepos (callbacks (trace m))) + mset repos"
  proof
    assume h: "0 \<le> BatchSize (client m) \<and> 0 \<notin> set repos
       \<and> (\<forall>(b, r)\<in>set (forceResults env repos m).
             \<forall>opts. r = Inr opts \<longrightarrow> mset (map (\<lambda>opt. RepoID (IndexOptions opt)) opts) = mset b)"
    have cc: "concat (map fst (forceResults env repos m)) = repos"
      using h by (simp add: forceResults_fst)
    have "mset (callbackRepos (concat (map (\<lambda>(b, r). batchCallbacks b r) (forceResults env repos m))))
          = mset (concat (map fst (forceResults env repos m)))"
    proof (rule callbackRepos_batches)
      fix b r assume in_zs: "(b, r) \<in> set (forceResults env repos m)"
      then have "set b \<subseteq> set (concat (map fst (forceResults env repos m)))" by force
      then show "0 \<notin> set b" using h cc by auto
    next
      fix b r opts assume "(b, r) \<in> set (forceResults env repos m)" "r = Inr opts"
      then show "mset (map (\<lambda>opt. RepoID (IndexOptions opt)) opts) = mset b"
        using h by blast
    qed
    then show "mset (callbackRepos (callbacks (trace (ForceIterateIndexOptions env repos m))))
          = mset (callbackRepos (callbacks (trace m))) + mset repos"
      by (simp add: c1 callbackRepos_append cc)
  qed
  from c1 c4 c5 show ?thesis by simp
qed

lemma force_callbacks_scenario:
  "0 \<le> BatchSize (client (machine0 False)) \<and> 0 \<notin> set [1, 2, 3 :: uint32]
   \<and> forceResults (scripted scenarioREST scenarioGRPC) [1, 2, 3] (machine0 False)
       = [([1, 2], Inr [item1, item2]), ([3], Inr [item3])]
   \<and> mset (map (\<lambda>opt. RepoID (IndexOptions opt)) [item1, item2]) = mset [1, 2]
   \<and> mset (map (\<lambda>opt. RepoID (IndexOptions opt)) [item3]) = mset [3]
   \<and> callbacks (trace (ForceIterateIndexOptions (scripted scenarioREST scenarioGRPC) [1, 2, 3] (machine0 False)))
       = [OnSuccess (IndexOptions item1), OnError 2 (Err ''not found''), OnSuccess (IndexOptions item3)]
   \<and> mset (callbackRepos (callbacks
        (trace (ForceIterateIndexOptions (scripted scenarioREST scenarioGRPC) [1, 2, 3] (machine0 False)))))
       = mset [1, 2, 3]"
proof -
  let ?env = "scripted scenarioREST scenarioGRPC"
  have h1: "0 \<le> BatchSize (client (machine0 False))" by (simp add: machine0_def client0_def)
  have h2: "0 \<notin> set [1, 2, 3 :: uint32]" by simp
  have fr: "forceResults ?env [1, 2, 3] (machine0 False)
       = [([1, 2], Inr [item1, item2]), ([3], Inr [item3])]"
    by (simp add: forceResults_def forceBatchSize_def machine0_def client0_def batched_123
        forceGetIndexOptions_def scripted_def scenarioREST_def okResponse_def jsonItem_def optionsFor_def
        fetch_defs item_defs)
  have i1: "mset (map (\<lambda>opt. RepoID (IndexOptions opt)) [item1, item2]) = mset [1, 2]"
    by (simp add: item_defs optionsFor_def)
  have i2: "mset (map (\<lambda>opt. RepoID (IndexOptions opt)) [item3]) = mset [3]"
    by (simp add: item_defs optionsFor_def)
  have h3: "\<forall>(b, r)\<in>set (forceResults ?env [1, 2, 3] (machine0 False)).
             \<forall>opts. r = Inr opts \<longrightarrow> mset (map (\<lambda>opt. RepoID (IndexOptions opt)) opts) = mset b"
    unfolding fr using i1 i2 by simp
  have t0: "trace (machine0 False) = []" by (simp add: machine0_def)
  note t = force_callbacks [where env = ?env and repos = "[1, 2, 3]" and m = "machine0 False"]
  have a: "callbacks (trace (ForceIterateIndexOptions ?env [1, 2, 3] (machine0 False)))
       = [OnSuccess (IndexOptions item1), OnError 2 (Err ''not found''), OnSuccess (IndexOptions item3)]"
    using t [THEN conjunct1]
    by (simp add: fr t0 callbacks_def itemCallbacks_def item_defs optionsFor_def)
  have b: "mset (callbackRepos (callbacks (trace (ForceIterateIndexOptions ?env [1, 2, 3] (machine0 False)))))
       = mset [1, 2, 3]"
    using t [THEN conjunct2, THEN conjunct2, THEN conjunct2, THEN conjunct2, THEN mp] h1 h2 h3
    by (simp add: t0 callbacks_def)
  from h1 h2 fr i1 i2 a b show ?thesis by blast
qed

section \<open>The reset deadline in List\<close>

text \<open>
  C4, amended. For every number of indexed repositories and every outcome of the draw
  the duration is computed without a panic, is at least five minutes, and is at most
  1.25 times the larger of five minutes and a minute per 500 repositories (the jitter
  is a quarter of the floored value, not of the unfloored one). When \<open>List\<close> has
  its list of repositories and finds the deadline passed, it returns, and the deadline
  it stores is that duration after its second reading of the clock.
\<close>

theorem reset_duration_bounds:
  "(\<exists>d. resetDuration n seed = Some d
        \<and> 5 * Minute \<le> d
        \<and> real_of_int d \<le> 1.25 * max (real_of_int (5 * Minute)) (real n * real_of_int Minute / 500))
   \<and> (fst (listRepoIDs env indexed m) = Inr repos \<and> now1 > configFingerprintReset (client m)
      \<longrightarrow> (\<exists>res m' d. List env indexed now1 now2 seed' m = Some (Inr res, m')
                     \<and> resetDuration (length indexed) seed' = Some d
                     \<and> configFingerprintReset (client m') = now2 + d))"
proof (intro conjI impI)
  obtain d where d: "resetDuration n seed = Some d" "resetBase n \<le> d"
      "d < resetBase n + resetBase n div 4"
    using resetDuration_between [of n seed] by blast
  let ?b = "resetBase n"
  have lo: "5 * Minute \<le> d" using d(2) resetBase_lower [of n] by linarith
  have "real_of_int (?b div 4) \<le> real_of_int ?b / real_of_int 4"
    by (rule real_of_int_div4)
  then have "real_of_int d \<le> 1.25 * real_of_int ?b" using d(3) by simp
  moreover have "real_of_int ?b \<le> max (real_of_int (5 * Minute)) (real n * real_of_int Minute / 500)"
  proof -
    have "real_of_int (int n * Minute div 500) \<le> real_of_int (int n * Minute) / real_of_int 500"
      by (rule real_of_int_div4)
    then have "real_of_int (max (5 * Minute) (int n * Minute div 500))
               \<le> max (real_of_int (5 * Minute)) (real n * real_of_int Minute / 500)"
      by (simp add: max_def)
    moreover have "real_of_int ?b \<le> real_of_int (max (5 * Minute) (int n * Minute div 500))"
      using resetBase_upper [of n] by (simp only: of_int_le_iff)
    ultimately show ?thesis by linarith
  qed
  ultimately have "real_of_int d \<le> 1.25 * max (real_of_int (5 * Minute)) (real n * real_of_int Minute / 500)"
    by simp
  with d(1) lo show "\<exists>d. resetDuration n seed = Some d
        \<and> 5 * Minute \<le> d
        \<and> real_of_int d \<le> 1.25 * max (real_of_int (5 * Minute)) (real n * real_of_int Minute / 500)"
    by blast
next
  assume h: "fst (listRepoIDs env indexed m) = Inr repos \<and> now1 > configFingerprintReset (client m)"
  obtain m1 where l: "listRepoIDs env indexed m = (Inr repos, m1)"
    using h by (cases "listRepoIDs env indexed m") simp
  have c: "client m1 = client m" using listRepoIDs_client [of env indexed m] by (simp add: l)
  obtain d where d: "resetDuration (length indexed) seed' = Some d"
    using resetDuration_between [of "length indexed" seed'] by blast
  have t: "configFingerprintReset (client m1) < now1" using h c by simp
  let ?m' = "m1\<lparr>client := (client m1)\<lparr>configFingerprintReset := now2 + d,
                                         configFingerprintProto := None,
                                         configFingerprint := []\<rparr>\<rparr>"
  let ?res = "\<lparr>IDs = repos,
               it_batchSize = (if BatchSize (client m1) = 0 then 10000 else BatchSize (client m1)),
               it_useGRPC = useGRPC (client ?m')\<rparr>"
  have "List env indexed now1 now2 seed' m = Some (Inr ?res, ?m')"
    by (simp add: List_def l d t Let_def)
  then show "\<exists>res m' d. List env indexed now1 now2 seed' m = Some (Inr res, m')
                     \<and> resetDuration (length indexed) seed' = Some d
                     \<and> configFingerprintReset (client m') = now2 + d"
    using d by (intro exI [of _ ?res] exI [of _ ?m'] exI [of _ d]) simp
qed

theorem reset_duration_bounds_witness:
  "fst (listRepoIDs (scripted scenarioREST scenarioGRPC) [] (machine0 False)) = Inr [1, 2, 3]
   \<and> 2000 > configFingerprintReset (client (machine0 False))
   \<and> resetDuration (length ([] :: uint32 list)) 1 = Some 300000000001
   \<and> List (scripted scenarioREST scenarioGRPC) [] 2000 3000 1 (machine0 False)
       = Some (Inr (result0 False),
               (machine0 False)\<lparr>client := (client0 False)
                  \<lparr>configFingerprintReset := 3000 + 300000000001,
                   configFingerprintProto := None, configFingerprint := []\<rparr>\<rparr>)"
proof -
  let ?env = "scripted scenarioREST scenarioGRPC"
  have h1: "fst (listRepoIDs ?env [] (machine0 False)) = Inr [1, 2, 3]"
    by (simp add: listRepoIDs_def scripted_def)
  have h2: "2000 > configFingerprintReset (client (machine0 False))"
    by (simp add: machine0_def client0_def)
  have rd: "resetDuration (length ([] :: uint32 list)) 1 = Some 300000000001"
    by (simp add: resetDuration_def resetBase_def Int63n_def quo_def int64_def Minute_def)
  from reset_duration_bounds
         [where env = ?env and indexed = "[]" and m = "machine0 False" and repos = "[1, 2, 3]"
            and ?now1.0 = 2000 and ?now2.0 = 3000 and seed' = 1,
          THEN conjunct2, THEN mp] h1 h2
  obtain res m' d where x: "List ?env [] 2000 3000 1 (machine0 False) = Some (Inr res, m')"
      "resetDuration (length ([] :: uint32 list)) 1 = Some d"
      "configFingerprintReset (client m') = 3000 + d"
    by blast
  have le: "List ?env [] 2000 3000 1 (machine0 False)
       = Some (Inr (result0 False),
               (machine0 False)\<lparr>client := (client0 False)
                  \<lparr>configFingerprintReset := 3000 + 300000000001,
                   configFingerprintProto := None, configFingerprint := []\<rparr>\<rparr>)"
    using rd by (simp add: List_def listRepoIDs_def scripted_def machine0_def client0_def result0_def)
  from x(1) le have e: "res = result0 False"
    "m' = (machine0 False)\<lparr>client := (client0 False)
                  \<lparr>configFingerprintReset := 3000 + 300000000001,
                   configFingerprintProto := None, configFingerprint := []\<rparr>\<rparr>"
    by simp_all
  from x(1) have "List ?env [] 2000 3000 1 (machine0 False)
       = Some (Inr (result0 False),
               (machine0 False)\<lparr>client := (client0 False)
                  \<lparr>configFingerprintReset := 3000 + 300000000001,
                   configFingerprintProto := None, configFingerprint := []\<rparr>\<rparr>)"
    unfolding e .
  with h1 h2 rd show ?thesis by blast
qed

section \<open>The fake reports no error of a repository\<close>

text \<open>
  Every item that the fake's \<open>GetIndexOptions\<close> returns with an error has the
  repository ID 0: the item for a repository whose options failed to resolve carries
  only the error (line 919), and "not found" is written into items without an ID (lines
  929-933). So the guard of line 896 never lets \<open>onError\<close> through for an item: when
  the walk succeeds, the fake calls \<open>onSuccess\<close> for the repositories it resolved and
  nothing for the others.
\<close>

lemma update_inv:
  assumes "\<forall>item\<in>set items. P item" "P new"
  shows "\<forall>item\<in>set (items[idx := new]). P item"
proof
  fix item assume "item \<in> set (items[idx := new])"
  then have "item \<in> insert new (set items)" using set_update_subset_insert by fastforce
  with assms show "P item" by auto
qed

lemma fake_visit_inv:
  assumes a: "\<forall>item\<in>set items. Error item \<noteq> [] \<longrightarrow> RepoID (IndexOptions item) = 0"
  shows "\<forall>item\<in>set (fake_visit sf repos items name). Error item \<noteq> [] \<longrightarrow> RepoID (IndexOptions item) = 0"
proof (cases "reposIdx repos (fake_id sf name)")
  case None
  then show ?thesis using a by (simp add: fake_visit_def)
next
  case (Some idx)
  show ?thesis
  proof (cases "fake_getIndexOptions sf name")
    case (Inl err)
    have "\<forall>item\<in>set (items[idx := zeroItem\<lparr>Error := errorMessage err\<rparr>]).
            Error item \<noteq> [] \<longrightarrow> RepoID (IndexOptions item) = 0"
      by (rule update_inv [OF a]) (simp add: zeroItem_def zeroOptions_def)
    then show ?thesis by (simp add: fake_visit_def Some Inl)
  next
    case (Inr opts)
    have "\<forall>item\<in>set (items[idx := zeroItem\<lparr>IndexOptions := opts\<rparr>]).
            Error item \<noteq> [] \<longrightarrow> RepoID (IndexOptions item) = 0"
      by (rule update_inv [OF a]) (simp add: zeroItem_def)
    then show ?thesis by (simp add: fake_visit_def Some Inr)
  qed
qed

lemma fake_visits_inv:
  "\<forall>item\<in>set items. Error item \<noteq> [] \<longrightarrow> RepoID (IndexOptions item) = 0
   \<Longrightarrow> \<forall>item\<in>set (foldl (fake_visit sf repos) items names).
         Error item \<noteq> [] \<longrightarrow> RepoID (IndexOptions item) = 0"
proof (induction names arbitrary: items)
  case Nil
  then show ?case by simp
next
  case (Cons name names)
  have "\<forall>item\<in>set (fake_visit sf repos items name). Error item \<noteq> [] \<longrightarrow> RepoID (IndexOptions item) = 0"
    by (rule fake_visit_inv [OF Cons.prems])
  from Cons.IH [OF this] show ?case by simp
qed

lemma fake_error_items_have_no_id:
  assumes "fake_GetIndexOptions sf repos = Inr items"
  shows "\<forall>item\<in>set items. Error item \<noteq> [] \<longrightarrow> RepoID (IndexOptions item) = 0"
proof -
  let ?its = "foldl (fake_visit sf repos) (replicate (length repos) zeroItem) (visited sf)"
  have z: "\<forall>item\<in>set (replicate (length repos) zeroItem). Error item \<noteq> [] \<longrightarrow> RepoID (IndexOptions item) = 0"
    by (simp add: zeroItem_def)
  have i: "\<forall>item\<in>set ?its. Error item \<noteq> [] \<longrightarrow> RepoID (IndexOptions item) = 0"
    by (rule fake_visits_inv [OF z])
  from assms have "items = map notFound ?its"
    by (simp add: fake_GetIndexOptions_def Let_def split: option.splits)
  then show ?thesis using i by (auto simp: notFound_def split: if_splits)
qed

lemma fake_calls_no_onError:
  assumes "fake_GetIndexOptions sf repos = Inr items"
  shows "callbacks (trace (fake_ForceIterateIndexOptions sf repos m))
         = callbacks (trace m)
           @ map (\<lambda>item. OnSuccess (IndexOptions item)) (filter (\<lambda>item. Error item = []) items)"
proof -
  have e: "\<forall>item\<in>set items. Error item \<noteq> [] \<longrightarrow> RepoID (IndexOptions item) = 0"
    by (rule fake_error_items_have_no_id [OF assms])
  have "concat (map itemCallbacks items)
        = map (\<lambda>item. OnSuccess (IndexOptions item)) (filter (\<lambda>item. Error item = []) items)"
    using e by (induction items) (auto simp: itemCallbacks_def)
  with callbacks_itemCallbacks [of items]
  have "callbacks (concat (map itemCallbacks items))
        = map (\<lambda>item. OnSuccess (IndexOptions item)) (filter (\<lambda>item. Error item = []) items)"
    by (rule trans)
  then show ?thesis
    by (simp add: fake_ForceIterateIndexOptions_def assms forceItems_eq callbacks_append)
qed

lemma fake_not_found_gets_no_callback:
  "fake_GetIndexOptions emptyRoot [5] = Inr [zeroItem\<lparr>Error := ''not found''\<rparr>]
   \<and> callbacks (trace (fake_ForceIterateIndexOptions emptyRoot [5] (machine0 False))) = []"
proof -
  have g: "fake_GetIndexOptions emptyRoot [5] = Inr [zeroItem\<lparr>Error := ''not found''\<rparr>]"
    by (simp add: fake_GetIndexOptions_def emptyRoot_def notFound_def zeroItem_def zeroOptions_def)
  have "callbacks (trace (fake_ForceIterateIndexOptions emptyRoot [5] (machine0 False))) = []"
    using fake_calls_no_onError [OF g, of "machine0 False"]
    by (simp add: machine0_def callbacks_def)
  with g show ?thesis by simp
qed

section \<open>A repository that gets neither callback\<close>

text \<open>
  C7. For every repository ID given to \<open>ForceIterateIndexOptions\<close> exactly one of
  \<open>onSuccess\<close> and \<open>onError\<close> is to be called; the interface says so (lines 69-73),
  and the path of a failed fetch does it (lines 425-427). The code does not: asked for
  repository 5, the client whose control plane answers with an item that has the
  error "not found" and no repository ID calls neither callback, and so does the fake
  on a root directory without repositories, which builds its "not found" item without
  an ID (lines 929-933).
\<close>

theorem force_calls_neither_callback:
  "forceResults (scripted notFoundREST notFoundGRPC) [5] (machine0 False)
     = [([5], Inr [\<lparr>IndexOptions = optionsFor 0 [] ''http://sg/.internal/git/'', Error = ''not found''\<rparr>])]
   \<and> callbacks (trace (ForceIterateIndexOptions (scripted notFoundREST notFoundGRPC) [5] (machine0 False)))
     = []
   \<and> fake_GetIndexOptions emptyRoot [5] = Inr [zeroItem\<lparr>Error := ''not found''\<rparr>]
   \<and> callbacks (trace (fake_ForceIterateIndexOptions emptyRoot [5] (machine0 False))) = []"
  using client_not_found_no_callback fake_not_found_gets_no_callback by simp

end
